theory Spec2Isabelle
  imports Main "HOL-Library.Char_ord" "HOL-Library.List_Lexorder"
begin

section \<open>Values, exceptions and the observable trace\<close>

text \<open>
  The model follows \<^verbatim>\<open>src/tap_sailthru/streams.py\<close>.  Python values that can
  sit in a record or a context are given by \<open>pyval\<close>; a dict is an association
  list in insertion order.  Every \<^verbatim>\<open>raise\<close> of the source is a value of
  \<open>exn\<close>; everything the code writes (log lines, sleeps, Singer messages, calls into
  child streams) is an \<open>event\<close> appended to a trace.
\<close>

datatype pyval =
    VNone
  | VInt int
  | VStr string
  | VList "pyval list"
  | VDict "(string \<times> pyval) list"

type_synonym pydict = "(string \<times> pyval) list"

datatype exn =
    SailthruJobTimeoutError
  | MaxRetryError
  | ChunkedEncodingError
  | SailthruClientError
  | TimeoutError
  | KeyError string
  | TypeError
  | ValueError
  | RuntimeError
  | UnboundLocalError
  | ZeroDivisionError
  | InvalidStreamSortException
  | MaxRecordsLimitException

section \<open>Job Manager: \<^verbatim>\<open>SailthruJobStream.get_job_url\<close>\<close>

text \<open>
  The body of one \<^verbatim>\<open>/job\<close> response, as far as \<^verbatim>\<open>get_job_url\<close> reads it:
  \<^verbatim>\<open>response.get('status')\<close> and \<^verbatim>\<open>response.get('export_url')\<close>, each \<open>None\<close>
  when the key is absent.
\<close>

record job_response =
  status :: "string option"
  export_url :: "string option"

text \<open>
  What \<^verbatim>\<open>get_job_url\<close> does besides returning: the info line with the status, the
  critical line of the timeout (job id, timeout, latest status) and \<^verbatim>\<open>time.sleep\<close>.
\<close>

datatype job_event =
    JobStatusInfo "string option"
  | JobTimeoutCritical string nat "string option"
  | Sleep nat

text \<open>
  The outside world of the poller.  \<open>api_get_job jid i\<close> is what the \<open>i\<close>-th call
  \<^verbatim>\<open>client.api_get('job', {'job_id': jid}).get_body()\<close> gives (an exception or a
  body); \<open>elapsed_seconds jid i\<close> is the number \<^verbatim>\<open>(now - job_start_time).seconds\<close>
  read in the \<open>i\<close>-th pass of the loop.
\<close>

record job_client =
  api_get_job :: "string \<Rightarrow> nat \<Rightarrow> exn + job_response"
  elapsed_seconds :: "string \<Rightarrow> nat \<Rightarrow> nat"

text \<open>
  The \<^verbatim>\<open>while status != 'completed'\<close> loop, with its variables \<^verbatim>\<open>status\<close> and
  \<^verbatim>\<open>response\<close> (unbound before the first pass) and the pass counter.  The loop has
  no bound of its own, so not returning is the value \<open>None\<close>.
\<close>

partial_function (option) poll_job ::
  "job_client \<Rightarrow> string \<Rightarrow> nat \<Rightarrow> nat \<Rightarrow> string option \<Rightarrow> job_response option
     \<Rightarrow> job_event list \<Rightarrow> (job_event list \<times> (exn + string option)) option"
where
  "poll_job c job_id timeout i st0 response log =
     (if st0 \<noteq> Some ''completed'' then
        (case api_get_job c job_id i of
           Inl e \<Rightarrow> Some (log, Inl e)
         | Inr resp \<Rightarrow>
             (if timeout < elapsed_seconds c job_id i
              then Some (log @ [JobStatusInfo (status resp),
                                JobTimeoutCritical job_id timeout (status resp)],
                         Inl SailthruJobTimeoutError)
              else poll_job c job_id timeout (Suc i) (status resp) (Some resp)
                     (log @ [JobStatusInfo (status resp), Sleep 1])))
      else (case response of
              None \<Rightarrow> Some (log, Inl UnboundLocalError)
            | Some resp \<Rightarrow> Some (log, Inr (export_url resp))))"

definition get_job_url ::
  "job_client \<Rightarrow> string \<Rightarrow> nat \<Rightarrow> (job_event list \<times> (exn + string option)) option"
where
  "get_job_url c job_id timeout = poll_job c job_id timeout 0 (Some []) None []"

text \<open>The default of the parameter \<^verbatim>\<open>timeout: int = 600\<close>.\<close>

definition default_timeout :: nat where
  "default_timeout = 600"

text \<open>
  The trace of the passes \<open>k, ..., n - 1\<close> when none of them ends the loop: each logs
  the status it saw and sleeps one second.
\<close>

definition polls_log :: "(nat \<Rightarrow> job_response) \<Rightarrow> nat \<Rightarrow> nat \<Rightarrow> job_event list" where
  "polls_log rs k n = concat (map (\<lambda>j. [JobStatusInfo (status (rs j)), Sleep 1]) [k..<n])"

text \<open>
  Two concrete worlds for the poller.  In the first the job goes through
  \<^verbatim>\<open>submitted, processing, processing, completed\<close> while one second passes per
  poll; in the second it stays \<^verbatim>\<open>processing\<close> and 301 seconds pass per poll.
\<close>

definition spec_example_responses :: "nat \<Rightarrow> job_response" where
  "spec_example_responses i =
     \<lparr>status = Some (if i = 0 then ''submitted''
                      else if i < 3 then ''processing'' else ''completed''),
      export_url = (if i < 3 then None else Some ''https://export/1.csv'')\<rparr>"

definition spec_example_client :: job_client where
  "spec_example_client =
     \<lparr>api_get_job = (\<lambda>jid i. Inr (spec_example_responses i)),
      elapsed_seconds = (\<lambda>jid i. i)\<rparr>"

definition stuck_responses :: "nat \<Rightarrow> job_response" where
  "stuck_responses i = \<lparr>status = Some ''processing'', export_url = None\<rparr>"

definition stuck_client :: job_client where
  "stuck_client =
     \<lparr>api_get_job = (\<lambda>jid i. Inr (stuck_responses i)),
      elapsed_seconds = (\<lambda>jid i. 301 * i)\<rparr>"

section \<open>Dictionaries and truthiness\<close>

text \<open>
  \<^verbatim>\<open>d[k] = v\<close> on an insertion-ordered dict: an existing key keeps its place, a new
  key goes last.  \<^verbatim>\<open>d.update(other)\<close> stores the items of \<open>other\<close> in order.
\<close>

fun dict_set :: "'k \<Rightarrow> 'v \<Rightarrow> ('k \<times> 'v) list \<Rightarrow> ('k \<times> 'v) list" where
  "dict_set k v [] = [(k, v)]"
| "dict_set k v (p # d) = (if fst p = k then (k, v) # d else p # dict_set k v d)"

definition dict_update :: "('k \<times> 'v) list \<Rightarrow> ('k \<times> 'v) list \<Rightarrow> ('k \<times> 'v) list" where
  "dict_update d other = foldl (\<lambda>acc kv. dict_set (fst kv) (snd kv) acc) d other"

text \<open>Python's truth value of an object, and \<^verbatim>\<open>len\<close>, which raises on \<open>None\<close> and numbers.\<close>

fun py_truthy :: "pyval \<Rightarrow> bool" where
  "py_truthy VNone = False"
| "py_truthy (VInt n) = (n \<noteq> 0)"
| "py_truthy (VStr s) = (s \<noteq> [])"
| "py_truthy (VList xs) = (xs \<noteq> [])"
| "py_truthy (VDict d) = (d \<noteq> [])"

fun py_len :: "pyval \<Rightarrow> exn + nat" where
  "py_len VNone = Inl TypeError"
| "py_len (VInt n) = Inl TypeError"
| "py_len (VStr s) = Inr (length s)"
| "py_len (VList xs) = Inr (length xs)"
| "py_len (VDict d) = Inr (length d)"

section \<open>Generators and the \<^verbatim>\<open>backoff.on_exception\<close> decorator\<close>

text \<open>
  A generator is modelled by what it does when it is run to its end: the items it
  yields, the log lines it writes in between, and the exception that ends it, if any
  (\<open>Raise\<close> is always the last item).
\<close>

datatype ('a, 'e) gen_item = Yield 'a | Emit 'e | Raise exn

text \<open>
  Calling a generator function runs none of its body: the call returns the generator
  object and cannot raise.
\<close>

definition call_generator :: "'g \<Rightarrow> exn + 'g" where
  "call_generator body = Inr body"

text \<open>
  \<^verbatim>\<open>backoff.on_exception(backoff.expo, exception, max_tries=m)\<close> wraps the call of its
  target: the wrapper calls the target, returns what the call returns, and calls again
  only when the call itself raised \<^verbatim>\<open>exception\<close> and fewer than \<open>m\<close> calls were made.
  \<open>target n\<close> is what the \<open>n\<close>-th call (from 0) gives; \<open>retry_exception exc r n\<close> makes
  call \<open>n\<close> with \<open>r\<close> further calls allowed.  The waits between calls are randomised by
  the library and left out.
\<close>

fun retry_exception :: "exn \<Rightarrow> nat \<Rightarrow> nat \<Rightarrow> (nat \<Rightarrow> exn + 'a) \<Rightarrow> exn + 'a" where
  "retry_exception exc 0 n target = target n"
| "retry_exception exc (Suc r) n target =
     (case target n of
        Inr ret \<Rightarrow> Inr ret
      | Inl e \<Rightarrow> if e = exc then retry_exception exc r (Suc n) target else Inl e)"

definition on_exception :: "exn \<Rightarrow> nat \<Rightarrow> (nat \<Rightarrow> exn + 'a) \<Rightarrow> exn + 'a" where
  "on_exception exc max_tries target = retry_exception exc (max_tries - 1) 0 target"

section \<open>Resilient Stream Decoder: \<^verbatim>\<open>SailthruJobStream.process_job_csv\<close>\<close>

text \<open>
  What the decoder writes: the GET it issues and the info line of the
  \<^verbatim>\<open>except ChunkedEncodingError\<close> branch.
\<close>

datatype csv_event = HttpGet "string option" | StoppingEarlyInfo

text \<open>
  The transport.  \<open>http_get url n\<close> is the \<open>n\<close>-th \<^verbatim>\<open>requests.get(url, stream=True)\<close>
  (from 0): either the call raises, or the body streams; a streamed body is the rows
  that \<^verbatim>\<open>csv.DictReader\<close> decodes from it before it ends, and how it ends (\<open>None\<close>:
  end of body; \<open>Some e\<close>: the read raises \<open>e\<close>, \<^verbatim>\<open>ChunkedEncodingError\<close> for a
  truncated chunked transfer).  \<open>py_str\<close> is Python's built-in \<^verbatim>\<open>str\<close>.
\<close>

record transport =
  http_get :: "string option \<Rightarrow> nat \<Rightarrow> exn + (pydict list \<times> exn option)"
  py_str :: "pyval \<Rightarrow> string"

text \<open>The attributes of a job stream that the decoder reads.\<close>

record job_stream =
  name :: string
  schema_keys :: "string list"

text \<open>\<^verbatim>\<open>ListMemberStream.post_process\<close>: schema keys are kept, every other item
  becomes an entry of \<^verbatim>\<open>custom_vars\<close>.\<close>

definition post_process :: "'a job_stream_scheme \<Rightarrow> transport \<Rightarrow> pydict \<Rightarrow> pydict" where
  "post_process s t row =
     (let new_row = filter (\<lambda>kv. fst kv \<in> set (schema_keys s)) row;
          custom_vars_arr =
            map (\<lambda>kv. VDict [(''var_name'', VStr (fst kv)), (''var_value'', VStr (py_str t (snd kv)))])
                (filter (\<lambda>kv. fst kv \<notin> set (schema_keys s)) row)
      in dict_set ''custom_vars'' (VList custom_vars_arr) new_row)"

text \<open>The body of the \<^verbatim>\<open>for row in reader\<close> loop, for one row.\<close>

definition decode_row :: "'a job_stream_scheme \<Rightarrow> transport \<Rightarrow> pydict option \<Rightarrow> pydict \<Rightarrow> pydict" where
  "decode_row s t parent_params row =
     (let row1 = (case parent_params of
                    None \<Rightarrow> row
                  | Some pp \<Rightarrow> if pp \<noteq> [] then dict_update row pp else row)
      in if name s = ''list_members'' then post_process s t row1 else row1)"

text \<open>
  The generator body of \<^verbatim>\<open>process_job_csv\<close>, run when the generator is iterated;
  \<open>n\<close> counts the GETs of this URL made before.  An exception of \<^verbatim>\<open>requests.get\<close>
  is outside the \<^verbatim>\<open>try\<close> and leaves the generator; inside it, only
  \<^verbatim>\<open>ChunkedEncodingError\<close> is caught: the info line is written and the generator ends.
\<close>

definition process_job_csv_body ::
  "'a job_stream_scheme \<Rightarrow> transport \<Rightarrow> string option \<Rightarrow> pydict option \<Rightarrow> nat
     \<Rightarrow> (pydict, csv_event) gen_item list"
where
  "process_job_csv_body s t url parent_params n =
     Emit (HttpGet url) #
     (case http_get t url n of
        Inl e \<Rightarrow> [Raise e]
      | Inr (rows, ending) \<Rightarrow>
          map (\<lambda>row. Yield (decode_row s t parent_params row)) rows @
          (case ending of
             None \<Rightarrow> []
           | Some e \<Rightarrow> if e = ChunkedEncodingError then [Emit StoppingEarlyInfo] else [Raise e]))"

text \<open>
  The decorated function: \<^verbatim>\<open>@backoff.on_exception(backoff.expo,
  ChunkedEncodingError, max_tries=3, factor=2)\<close> around the generator function.
\<close>

definition process_job_csv ::
  "'a job_stream_scheme \<Rightarrow> transport \<Rightarrow> string option \<Rightarrow> pydict option
     \<Rightarrow> exn + (nat \<Rightarrow> (pydict, csv_event) gen_item list)"
where
  "process_job_csv s t url parent_params =
     on_exception ChunkedEncodingError 3
       (\<lambda>tries. call_generator (process_job_csv_body s t url parent_params))"

text \<open>
  Iterating \<^verbatim>\<open>self.process_job_csv(...)\<close> to its end, as \<^verbatim>\<open>yield from\<close> and
  \<^verbatim>\<open>for\<close> do: the first GET of the URL is number 0.
\<close>

definition iterate_job_csv ::
  "'a job_stream_scheme \<Rightarrow> transport \<Rightarrow> string option \<Rightarrow> pydict option
     \<Rightarrow> (pydict, csv_event) gen_item list"
where
  "iterate_job_csv s t url parent_params =
     (case process_job_csv s t url parent_params of
        Inl e \<Rightarrow> [Raise e]
      | Inr gen \<Rightarrow> gen 0)"

text \<open>The rows a run yields, in order.\<close>

fun yielded :: "('a, 'e) gen_item list \<Rightarrow> 'a list" where
  "yielded [] = []"
| "yielded (Yield x # xs) = x # yielded xs"
| "yielded (Emit e # xs) = yielded xs"
| "yielded (Raise e # xs) = yielded xs"

fun raised :: "('a, 'e) gen_item list \<Rightarrow> exn option" where
  "raised [] = None"
| "raised (Raise e # xs) = Some e"
| "raised (Yield x # xs) = raised xs"
| "raised (Emit e # xs) = raised xs"

text \<open>
  The transport of the spec's example: five rows, the body truncated after row 2 on
  the first two GETs and complete from the third GET on.
\<close>

definition five_rows :: "pydict list" where
  "five_rows = map (\<lambda>i. [(''id'', VStr i)]) [''1'', ''2'', ''3'', ''4'', ''5'']"

definition flaky_transport :: transport where
  "flaky_transport =
     \<lparr>http_get = (\<lambda>url n. if n < 2 then Inr (take 2 five_rows, Some ChunkedEncodingError)
                          else Inr (five_rows, None)),
      py_str = (\<lambda>v. case v of VStr s \<Rightarrow> s | _ \<Rightarrow> ''None'')\<rparr>"

definition blast_query_stream :: job_stream where
  "blast_query_stream = \<lparr>name = ''blast_query'', schema_keys = [''job_id'', ''send_time'']\<rparr>"

section \<open>Paginated Fetch Engine: \<^verbatim>\<open>UsersStream.request_records\<close>\<close>

text \<open>
  The REST side.  \<open>api_request data n\<close> is what the \<open>n\<close>-th call (from 0)
  \<^verbatim>\<open>client._api_request(url, request_data, ...).get_body()\<close> gives: an exception or
  a response body.  \<open>get_next_page_token resp previous_token\<close> is the stream's method
  of that name (defined outside \<^verbatim>\<open>streams.py\<close>), \<open>VNone\<close> when there is no next
  page.
\<close>

record paginator =
  api_request :: "pydict \<Rightarrow> nat \<Rightarrow> exn + pydict"
  get_next_page_token :: "pydict \<Rightarrow> pyval \<Rightarrow> pyval"

text \<open>The info line of the \<^verbatim>\<open>except SailthruClientError\<close> branch, with
  \<^verbatim>\<open>request_data['id']\<close>.\<close>

datatype page_event = ClientErrorInfo "pyval option"

text \<open>\<^verbatim>\<open>UsersStream.prepare_request_payload\<close>: \<^verbatim>\<open>context['user_id']\<close> raises on a
  missing context or key.\<close>

definition users_fields :: pyval where
  "users_fields =
     VDict (map (\<lambda>k. (k, VInt 1))
       [''activity'', ''device'', ''engagement'', ''keys'', ''lifetime'', ''lists'',
        ''optout_email'', ''purchase_incomplete'', ''purchases'', ''smart_lists'', ''vars''])"

definition users_request_payload :: "pydict option \<Rightarrow> exn + pydict" where
  "users_request_payload context =
     (case context of
        None \<Rightarrow> Inl TypeError
      | Some c \<Rightarrow>
          (case map_of c ''user_id'' of
             None \<Rightarrow> Inl (KeyError ''user_id'')
           | Some sid \<Rightarrow> Inr [(''id'', sid), (''key'', VStr ''sid''), (''fields'', users_fields)]))"

text \<open>
  The \<^verbatim>\<open>while not finished\<close> loop.  \<open>n\<close> counts the requests made so far and
  \<open>next_page_token\<close> is the variable of that name; \<^verbatim>\<open>request_data\<close> is computed once
  before the loop and never changes.  \<^verbatim>\<open>UsersStream.parse_response\<close> yields the
  response itself.  In the \<^verbatim>\<open>except SailthruClientError\<close> branch the line is logged
  and \<^verbatim>\<open>finished\<close> is still false, so the loop goes round again.  The loop has no
  bound of its own: \<open>fuel\<close> bounds the passes, and \<open>None\<close> says that the loop was
  still running when the fuel ran out.
\<close>

fun request_loop ::
  "nat \<Rightarrow> paginator \<Rightarrow> pydict \<Rightarrow> nat \<Rightarrow> pyval \<Rightarrow> (pydict, page_event) gen_item list option"
where
  "request_loop 0 p request_data n next_page_token = None"
| "request_loop (Suc fuel) p request_data n next_page_token =
     (case api_request p request_data n of
        Inl e \<Rightarrow>
          if e = SailthruClientError
          then map_option (\<lambda>items. Emit (ClientErrorInfo (map_of request_data ''id'')) # items)
                 (request_loop fuel p request_data (Suc n) next_page_token)
          else Some [Raise e]
      | Inr resp \<Rightarrow>
          (let previous_token = next_page_token;
               new_token = get_next_page_token p resp previous_token
           in if py_truthy new_token \<and> new_token = previous_token
              then Some [Yield resp, Raise RuntimeError]
              else if \<not> py_truthy new_token then Some [Yield resp]
              else map_option (\<lambda>items. Yield resp # items)
                     (request_loop fuel p request_data (Suc n) new_token)))"

definition request_records_body ::
  "paginator \<Rightarrow> pydict option \<Rightarrow> nat \<Rightarrow> (pydict, page_event) gen_item list option"
where
  "request_records_body p context fuel =
     (case users_request_payload context of
        Inl e \<Rightarrow> Some [Raise e]
      | Inr request_data \<Rightarrow> request_loop fuel p request_data 0 VNone)"

text \<open>The decorated generator function: \<^verbatim>\<open>@backoff.on_exception(backoff.expo,
  TimeoutError, max_tries=5, factor=4)\<close>.\<close>

definition request_records ::
  "paginator \<Rightarrow> pydict option
     \<Rightarrow> exn + (nat \<Rightarrow> (pydict, page_event) gen_item list option)"
where
  "request_records p context =
     on_exception TimeoutError 5 (\<lambda>tries. call_generator (request_records_body p context))"

definition iterate_request_records ::
  "paginator \<Rightarrow> pydict option \<Rightarrow> nat \<Rightarrow> (pydict, page_event) gen_item list option"
where
  "iterate_request_records p context fuel =
     (case request_records p context of
        Inl e \<Rightarrow> Some [Raise e]
      | Inr gen \<Rightarrow> gen fuel)"

text \<open>The value of \<^verbatim>\<open>next_page_token\<close> before request \<open>n\<close>, when the responses so
  far were \<open>rs 0, ..., rs (n - 1)\<close>; the token extracted after page \<open>n\<close> is
  \<open>token_before p rs (Suc n)\<close>.\<close>

fun token_before :: "paginator \<Rightarrow> (nat \<Rightarrow> pydict) \<Rightarrow> nat \<Rightarrow> pyval" where
  "token_before p rs 0 = VNone"
| "token_before p rs (Suc n) = get_next_page_token p (rs n) (token_before p rs n)"

text \<open>
  Example backends.  The token is read from the field \<^verbatim>\<open>next\<close> of the response.
  \<open>looping_pages\<close>: page 1 names token \<^verbatim>\<open>a\<close>, pages 2 and 3 both name token
  \<^verbatim>\<open>b\<close>.  \<open>failing_backend\<close>: every request raises \<^verbatim>\<open>SailthruClientError\<close>.
  \<open>recovering_backend\<close>: the first request raises it, the second answers with a last
  page.
\<close>

definition token_field :: "pydict \<Rightarrow> pyval \<Rightarrow> pyval" where
  "token_field resp previous_token = (case map_of resp ''next'' of None \<Rightarrow> VNone | Some v \<Rightarrow> v)"

definition looping_pages :: "nat \<Rightarrow> pydict" where
  "looping_pages n =
     (if n = 0 then [(''page'', VInt 1), (''next'', VStr ''a'')]
      else if n = 1 then [(''page'', VInt 2), (''next'', VStr ''b'')]
      else [(''page'', VInt 3), (''next'', VStr ''b'')])"

definition looping_backend :: paginator where
  "looping_backend =
     \<lparr>api_request = (\<lambda>request_data n. Inr (looping_pages n)), get_next_page_token = token_field\<rparr>"

definition failing_backend :: paginator where
  "failing_backend =
     \<lparr>api_request = (\<lambda>request_data n. Inl SailthruClientError), get_next_page_token = token_field\<rparr>"

definition recovering_backend :: paginator where
  "recovering_backend =
     \<lparr>api_request = (\<lambda>request_data n. if n = 0 then Inl SailthruClientError
                                        else Inr [(''email'', VStr ''a@example.com'')]),
      get_next_page_token = token_field\<rparr>"

text \<open>\<open>single_page_backend\<close>: every request answers with a page that names no next token.\<close>

definition single_page_backend :: paginator where
  "single_page_backend =
     \<lparr>api_request = (\<lambda>request_data n. Inr [(''email'', VStr ''a@example.com'')]),
      get_next_page_token = token_field\<rparr>"

definition user_context :: "pydict option" where
  "user_context = Some [(''list_id'', VStr ''L1''), (''user_id'', VStr ''U1'')]"

section \<open>Incremental Sync Engine: \<^verbatim>\<open>ListMemberStream\<close>\<close>

subsection \<open>Bookmarks\<close>

text \<open>
  The bookmark of the spec's data model: the highest replication-key value observed
  and the progress markers.  The state of a stream is its whole-stream bookmark and
  one bookmark per state partition context.
\<close>

record bookmark =
  replication_key_value :: "pyval option"
  progress_markers :: pydict

record stream_state =
  stream_bookmark :: bookmark
  partition_bookmarks :: "(pydict \<times> bookmark) list"

text \<open>Everything the sync of the stream writes or calls, in order.\<close>

datatype event =
    JobLog job_event
  | CsvLog csv_event
  | SubmitErrorInfo pyval
  | SkippingInfo pyval
  | StartingReplicationValue "pydict option" "pyval option"
  | SyncChildren pydict
  | StateMessage stream_state
  | RecordMessage pydict
  | SortErrorLog nat nat "pydict option" "pydict option" string
  | RecordCountLog nat "pydict option"

subsection \<open>The stream and its outside world\<close>

text \<open>
  The body of the answer to the job submission, as far as \<^verbatim>\<open>get_records\<close> reads
  it: \<^verbatim>\<open>response.get("error")\<close> (\<open>VNone\<close> when absent) and \<^verbatim>\<open>response['job_id']\<close>
  (\<open>None\<close> when the key is absent).
\<close>

record post_response =
  post_error :: pyval
  post_job_id :: "string option"

text \<open>
  \<open>api_post payload\<close> is \<^verbatim>\<open>client.api_post('job', payload).get_body()\<close>;
  \<open>pendulum_parse\<close> is \<^verbatim>\<open>pendulum.parse\<close> on a string (\<open>None\<close>: it raises its
  parser error, a \<^verbatim>\<open>ValueError\<close>); \<open>yesterday_utc n\<close> is what
  \<^verbatim>\<open>pendulum.yesterday('UTC')\<close> returns while record number \<open>n\<close> is processed;
  \<open>children_outcome cc\<close> is how \<^verbatim>\<open>self._sync_children(cc)\<close> ends (\<open>None\<close>: it
  returns).
\<close>

record world =
  api_post :: "pydict \<Rightarrow> exn + post_response"
  jobs :: job_client
  files :: transport
  pendulum_parse :: "string \<Rightarrow> int option"
  yesterday_utc :: "nat \<Rightarrow> int"
  children_outcome :: "pydict \<Rightarrow> exn option"

text \<open>
  The attributes of the stream object that \<^verbatim>\<open>_sync_records\<close> and
  \<^verbatim>\<open>get_records\<close> read.  \<open>signup_dt\<close> is the class attribute
  \<^verbatim>\<open>pendulum.yesterday('UTC')\<close>, evaluated once when the class is created.
\<close>

record list_member_stream = job_stream +
  account_name :: pyval
  selected :: bool
  selectively_sync_children :: bool
  signup_dt :: int
  replication_key :: string
  STATE_MSG_FREQUENCY :: nat
  MAX_RECORDS_LIMIT :: "nat option"
  partitions :: "pydict list option"
  state_partitioning_keys :: "string list option"

subsection \<open>Methods that \<^verbatim>\<open>streams.py\<close> calls but does not define\<close>

text \<open>
  Modelled from the spec: the SDK's \<^verbatim>\<open>_get_state_partition_context\<close>.  The state
  partition context of a context is the context itself, or its restriction to the
  state partitioning keys when the stream declares some.
\<close>

definition state_partition_context ::
  "list_member_stream \<Rightarrow> pydict option \<Rightarrow> pydict option" where
  "state_partition_context s context =
     (case context of
        None \<Rightarrow> None
      | Some c \<Rightarrow>
          (case state_partitioning_keys s of
             None \<Rightarrow> Some c
           | Some ks \<Rightarrow> Some (filter (\<lambda>kv. fst kv \<in> set ks) c)))"

text \<open>
  Modelled from the spec: the SDK's \<^verbatim>\<open>get_context_state\<close> (``load the context's
  existing bookmark'') and the write back of a changed bookmark.
\<close>

definition empty_bookmark :: bookmark where
  "empty_bookmark = \<lparr>replication_key_value = None, progress_markers = []\<rparr>"

definition get_context_state :: "stream_state \<Rightarrow> pydict option \<Rightarrow> bookmark" where
  "get_context_state st spc =
     (case spc of
        None \<Rightarrow> stream_bookmark st
      | Some c \<Rightarrow> (case map_of (partition_bookmarks st) c of None \<Rightarrow> empty_bookmark | Some b \<Rightarrow> b))"

definition set_context_state :: "stream_state \<Rightarrow> pydict option \<Rightarrow> bookmark \<Rightarrow> stream_state" where
  "set_context_state st spc b =
     (case spc of
        None \<Rightarrow> st\<lparr>stream_bookmark := b\<rparr>
      | Some c \<Rightarrow> st\<lparr>partition_bookmarks := dict_set c b (partition_bookmarks st)\<rparr>)"

text \<open>Python's \<^verbatim>\<open><\<close> on the values a replication key takes: strings compare
  lexicographically, numbers by value, anything else raises.\<close>

fun py_less :: "pyval \<Rightarrow> pyval \<Rightarrow> exn + bool" where
  "py_less (VStr a) (VStr b) = Inr (a < b)"
| "py_less (VInt a) (VInt b) = Inr (a < b)"
| "py_less a b = Inl TypeError"

text \<open>
  Modelled from the spec: the SDK's \<^verbatim>\<open>_increment_stream_state\<close> (``advance the
  bookmark using the record's replication-key value; if the new value is less than
  the current bookmark value, this is a fatal OutOfOrderReplicationKeyError'').
\<close>

definition increment_stream_state :: "list_member_stream \<Rightarrow> pydict \<Rightarrow> bookmark \<Rightarrow> exn + bookmark" where
  "increment_stream_state s rec b =
     (case map_of rec (replication_key s) of
        None \<Rightarrow> Inl (KeyError (replication_key s))
      | Some new \<Rightarrow>
          (case replication_key_value b of
             None \<Rightarrow> Inr (b\<lparr>replication_key_value := Some new\<rparr>)
           | Some old \<Rightarrow>
               (case py_less new old of
                  Inl e \<Rightarrow> Inl e
                | Inr lt \<Rightarrow> if lt then Inl InvalidStreamSortException
                              else Inr (b\<lparr>replication_key_value := Some new\<rparr>))))"

text \<open>Modelled from the spec: the SDK's \<^verbatim>\<open>finalize_state_progress_markers\<close>
  (``finalize (clear) that context's progress markers'').\<close>

definition finalize_state_progress_markers :: "bookmark \<Rightarrow> bookmark" where
  "finalize_state_progress_markers b = b\<lparr>progress_markers := []\<rparr>"

definition finalize_stream_state :: "stream_state \<Rightarrow> stream_state" where
  "finalize_stream_state st =
     \<lparr>stream_bookmark = finalize_state_progress_markers (stream_bookmark st),
      partition_bookmarks =
        map (\<lambda>cb. (fst cb, finalize_state_progress_markers (snd cb))) (partition_bookmarks st)\<rparr>"

text \<open>Modelled from the spec: the SDK's \<^verbatim>\<open>_check_max_record_limit\<close> (``enforce the
  global record-count ceiling; exceeding it aborts the entire sync'').\<close>

definition check_max_record_limit :: "list_member_stream \<Rightarrow> nat \<Rightarrow> exn option" where
  "check_max_record_limit s count =
     (case MAX_RECORDS_LIMIT s of
        None \<Rightarrow> None
      | Some limit \<Rightarrow> if limit < count then Some MaxRecordsLimitException else None)"

subsection \<open>\<^verbatim>\<open>get_records\<close>\<close>

text \<open>
  The generator body of \<^verbatim>\<open>ListMemberStream.get_records\<close>.  The error answer of the
  submission is logged and nothing else; around \<^verbatim>\<open>get_job_url\<close> only
  \<^verbatim>\<open>MaxRetryError\<close> is caught (logged, and the generator returns); every other
  exception leaves the generator.  \<open>None\<close>: the polling never returns.
\<close>

definition get_records ::
  "world \<Rightarrow> list_member_stream \<Rightarrow> pydict option \<Rightarrow> (pydict, event) gen_item list option"
where
  "get_records w s context =
     (case context of
        None \<Rightarrow> Some [Raise TypeError]
      | Some c \<Rightarrow>
     (case map_of c ''list_name'' of
        None \<Rightarrow> Some [Raise (KeyError ''list_name'')]
      | Some list_name \<Rightarrow>
     (case api_post w [(''job'', VStr ''export_list_data''), (''list'', list_name)] of
        Inl e \<Rightarrow> Some [Raise e]
      | Inr response \<Rightarrow>
     (let submitted = (if py_truthy (post_error response)
                       then [Emit (SubmitErrorInfo list_name)] else [])
      in case post_job_id response of
        None \<Rightarrow> Some (submitted @ [Raise (KeyError ''job_id'')])
      | Some job_id \<Rightarrow>
     (case get_job_url (jobs w) job_id default_timeout of
        None \<Rightarrow> None
      | Some (jlog, res) \<Rightarrow>
     (let polled = submitted @ map (\<lambda>e. Emit (JobLog e)) jlog
      in case res of
        Inl e \<Rightarrow>
          if e = MaxRetryError then Some (polled @ [Emit (SkippingInfo list_name)])
          else Some (polled @ [Raise e])
      | Inr url \<Rightarrow>
     (case map_of c ''list_id'' of
        None \<Rightarrow> Some (polled @ [Raise (KeyError ''list_id'')])
      | Some list_id \<Rightarrow>
          Some (polled @
            map (map_gen_item id CsvLog)
              (iterate_job_csv s (files w) url
                 (Some [(''List Name'', list_name), (''List Id'', list_id),
                        (''Account Name'', account_name s)]))))))))))"

text \<open>\<^verbatim>\<open>BlastQueryStream.get_records\<close>: the same text with \<^verbatim>\<open>blast_id\<close>.\<close>

definition blast_query_get_records ::
  "world \<Rightarrow> list_member_stream \<Rightarrow> pydict option \<Rightarrow> (pydict, event) gen_item list option"
where
  "blast_query_get_records w s context =
     (case context of
        None \<Rightarrow> Some [Raise TypeError]
      | Some c \<Rightarrow>
     (case map_of c ''blast_id'' of
        None \<Rightarrow> Some [Raise (KeyError ''blast_id'')]
      | Some blast_id \<Rightarrow>
     (case api_post w [(''job'', VStr ''blast_query''), (''blast_id'', blast_id)] of
        Inl e \<Rightarrow> Some [Raise e]
      | Inr response \<Rightarrow>
     (let submitted = (if py_truthy (post_error response)
                       then [Emit (SubmitErrorInfo blast_id)] else [])
      in case post_job_id response of
        None \<Rightarrow> Some (submitted @ [Raise (KeyError ''job_id'')])
      | Some job_id \<Rightarrow>
     (case get_job_url (jobs w) job_id default_timeout of
        None \<Rightarrow> None
      | Some (jlog, res) \<Rightarrow>
     (let polled = submitted @ map (\<lambda>e. Emit (JobLog e)) jlog
      in case res of
        Inl e \<Rightarrow>
          if e = MaxRetryError then Some (polled @ [Emit (SkippingInfo blast_id)])
          else Some (polled @ [Raise e])
      | Inr url \<Rightarrow>
          Some (polled @
            map (map_gen_item id CsvLog)
              (iterate_job_csv s (files w) url
                 (Some [(''blast_id'', blast_id), (''account_name'', account_name s)])))))))))"

subsection \<open>The record loop of \<^verbatim>\<open>_sync_records\<close>\<close>

text \<open>\<^verbatim>\<open>ListMemberStream.get_child_context\<close>: \<^verbatim>\<open>record["List Id"]\<close> and
  \<^verbatim>\<open>record["Profile Id"]\<close> are read outside any \<^verbatim>\<open>try\<close>; the list name is
  optional.  The \<^verbatim>\<open>context\<close> argument is not used.\<close>

definition get_child_context :: "pydict \<Rightarrow> pydict option \<Rightarrow> exn + pydict" where
  "get_child_context rec context =
     (case map_of rec ''List Id'' of
        None \<Rightarrow> Inl (KeyError ''List Id'')
      | Some list_id \<Rightarrow>
     (case map_of rec ''Profile Id'' of
        None \<Rightarrow> Inl (KeyError ''Profile Id'')
      | Some user_id \<Rightarrow>
     (let return_dict = [(''list_id'', list_id), (''user_id'', user_id)]
      in case map_of rec ''List Name'' of
           Some n \<Rightarrow> Inr (dict_set ''list_name'' n return_dict)
         | None \<Rightarrow>
             (case map_of rec ''Name'' of
                Some n \<Rightarrow> Inr (dict_set ''list_name'' n return_dict)
              | None \<Rightarrow> Inr return_dict))))"

text \<open>``Add state context to records if not already present''.\<close>

definition merge_state_context :: "pydict option \<Rightarrow> pydict \<Rightarrow> pydict" where
  "merge_state_context spc rec =
     foldl (\<lambda>r kv. if map_of r (fst kv) = None then dict_set (fst kv) (snd kv) r else r)
       rec (case spc of None \<Rightarrow> [] | Some c \<Rightarrow> c)"

text \<open>\<^verbatim>\<open>pendulum.parse(v)\<close>: a string that does not parse raises a
  \<^verbatim>\<open>ValueError\<close>, a value that is no string a \<^verbatim>\<open>TypeError\<close>.\<close>

definition py_parse :: "world \<Rightarrow> pyval \<Rightarrow> exn + int" where
  "py_parse w v =
     (case v of
        VStr str \<Rightarrow> (case pendulum_parse w str of None \<Rightarrow> Inl ValueError | Some t \<Rightarrow> Inr t)
      | _ \<Rightarrow> Inl TypeError)"

text \<open>
  The \<^verbatim>\<open>try\<close> block that computes \<^verbatim>\<open>list_signup\<close>.  The inner
  \<^verbatim>\<open>if len(record['profile_created_date']) > 0 ... else ...\<close> stands twice in the
  source, with the same text; it is \<open>profile_or_signup_date\<close>.
\<close>

definition profile_or_signup_date :: "world \<Rightarrow> pydict \<Rightarrow> exn + int" where
  "profile_or_signup_date w rec =
     (case map_of rec ''profile_created_date'' of
        None \<Rightarrow> Inl (KeyError ''profile_created_date'')
      | Some p \<Rightarrow>
          (case py_len p of
             Inl e \<Rightarrow> Inl e
           | Inr n \<Rightarrow>
               if 0 < n then py_parse w p
               else (case map_of rec ''signup_date'' of
                       None \<Rightarrow> Inl (KeyError ''signup_date'')
                     | Some d \<Rightarrow> py_parse w d)))"

definition signup_lookup :: "world \<Rightarrow> pydict \<Rightarrow> exn + int" where
  "signup_lookup w rec =
     (case map_of rec ''list_signup'' of
        None \<Rightarrow> profile_or_signup_date w rec
      | Some v \<Rightarrow>
          (case py_len v of
             Inl e \<Rightarrow> Inl e
           | Inr n \<Rightarrow> if 0 < n then py_parse w v else profile_or_signup_date w rec))"

text \<open>The \<^verbatim>\<open>except ValueError\<close> and \<^verbatim>\<open>except KeyError\<close> branches set
  \<^verbatim>\<open>list_signup = pendulum.yesterday('UTC')\<close>, read at that moment; any other
  exception leaves the loop.\<close>

definition derive_list_signup :: "world \<Rightarrow> int \<Rightarrow> pydict \<Rightarrow> exn + int" where
  "derive_list_signup w yesterday rec =
     (case signup_lookup w rec of
        Inr t \<Rightarrow> Inr t
      | Inl e \<Rightarrow>
          (case e of
             ValueError \<Rightarrow> Inr yesterday
           | KeyError k \<Rightarrow> Inr yesterday
           | _ \<Rightarrow> Inl e))"

text \<open>The variables of the loops of \<^verbatim>\<open>_sync_records\<close>, the state of the stream
  and the trace written so far.\<close>

record loop_state =
  record_count :: nat
  partition_record_count :: nat
  child_context :: "pydict option"
  state :: stream_state
  trace :: "event list"

definition sync_children :: "world \<Rightarrow> pydict \<Rightarrow> loop_state \<Rightarrow> loop_state \<times> exn option" where
  "sync_children w cc ls = (ls\<lparr>trace := trace ls @ [SyncChildren cc]\<rparr>, children_outcome w cc)"

text \<open>
  The body of \<^verbatim>\<open>if selected:\<close>: the interim state message, the record message,
  then the bookmark; a sort error is logged and raised again.
\<close>

definition write_record ::
  "list_member_stream \<Rightarrow> pydict option \<Rightarrow> pydict \<Rightarrow> loop_state \<Rightarrow> loop_state \<times> exn option"
where
  "write_record s current_context rec ls =
     (if STATE_MSG_FREQUENCY s = 0 then (ls, Some ZeroDivisionError)
      else
        (let ls1 = (if (int (record_count ls) - 1) mod int (STATE_MSG_FREQUENCY s) = 0
                    then ls\<lparr>trace := trace ls @ [StateMessage (state ls)]\<rparr> else ls);
             ls2 = ls1\<lparr>trace := trace ls1 @ [RecordMessage rec]\<rparr>;
             spc = state_partition_context s current_context
         in case increment_stream_state s rec (get_context_state (state ls2) spc) of
              Inl e \<Rightarrow>
                if e = InvalidStreamSortException
                then (ls2\<lparr>trace := trace ls2 @
                            [SortErrorLog (record_count ls + 1) (partition_record_count ls + 1)
                               current_context spc (name s)]\<rparr>, Some e)
                else (ls2, Some e)
            | Inr b \<Rightarrow> (ls2\<lparr>state := set_context_state (state ls2) spc b\<rparr>, None)))"

text \<open>
  One pass of \<^verbatim>\<open>for record_result in record_results\<close>.  \<^verbatim>\<open>get_records\<close> yields
  dicts only, so \<^verbatim>\<open>record = record_result\<close>.  The result is the loop state at the
  end of the pass, or at the point where the exception \<open>Some e\<close> left it.
\<close>

definition process_record ::
  "world \<Rightarrow> list_member_stream \<Rightarrow> pydict option \<Rightarrow> loop_state \<Rightarrow> pydict
     \<Rightarrow> loop_state \<times> exn option"
where
  "process_record w s current_context ls rec0 =
     (case get_child_context rec0 (child_context ls) of
        Inl e \<Rightarrow> (ls, Some e)
      | Inr cc \<Rightarrow>
     (let ls1 = ls\<lparr>child_context := Some cc\<rparr>;
          rec = merge_state_context (state_partition_context s current_context) rec0
      in case derive_list_signup w (yesterday_utc w (record_count ls)) rec of
        Inl e \<Rightarrow> (ls1, Some e)
      | Inr list_signup \<Rightarrow>
     (case (if selectively_sync_children s \<and> signup_dt s < list_signup
            then sync_children w cc ls1 else (ls1, None)) of
        (ls2, Some e) \<Rightarrow> (ls2, Some e)
      | (ls2, None) \<Rightarrow>
     (case check_max_record_limit s (record_count ls2) of
        Some e \<Rightarrow> (ls2, Some e)
      | None \<Rightarrow>
     (case (if selected s then write_record s current_context rec ls2 else (ls2, None)) of
        (ls3, Some e) \<Rightarrow> (ls3, Some e)
      | (ls3, None) \<Rightarrow>
          (ls3\<lparr>record_count := record_count ls3 + 1,
               partition_record_count := partition_record_count ls3 + 1\<rparr>, None))))))"

text \<open>The \<^verbatim>\<open>for\<close> loop over the generator: a log line of the generator goes to the
  trace, an exception of the generator leaves the loop.\<close>

fun sync_loop ::
  "world \<Rightarrow> list_member_stream \<Rightarrow> pydict option \<Rightarrow> loop_state \<Rightarrow> (pydict, event) gen_item list
     \<Rightarrow> loop_state \<times> exn option"
where
  "sync_loop w s current_context ls [] = (ls, None)"
| "sync_loop w s current_context ls (Yield r # items) =
     (case process_record w s current_context ls r of
        (ls', Some e) \<Rightarrow> (ls', Some e)
      | (ls', None) \<Rightarrow> sync_loop w s current_context ls' items)"
| "sync_loop w s current_context ls (Emit e # items) =
     sync_loop w s current_context (ls\<lparr>trace := trace ls @ [e]\<rparr>) items"
| "sync_loop w s current_context ls (Raise e # items) = (ls, Some e)"

subsection \<open>The context loop of \<^verbatim>\<open>_sync_records\<close>\<close>

text \<open>
  One pass of \<^verbatim>\<open>for current_context in context_list or [{}]\<close>.  The starting
  replication value marker is modelled from the spec (``emit a starting replication
  value marker'').  Contexts are dicts of distinct keys and the state partition context
  is a sub-dict of the context, so \<^verbatim>\<open>current_context == state_partition_context\<close> is
  equality of the lists.
\<close>

definition sync_context ::
  "world \<Rightarrow> list_member_stream \<Rightarrow> loop_state \<Rightarrow> pydict \<Rightarrow> (loop_state \<times> exn option) option"
where
  "sync_context w s ls c =
     (let current_context = (if c = [] then None else Some c);
          spc = state_partition_context s current_context;
          ls0 = ls\<lparr>partition_record_count := 0,
                   child_context := current_context,
                   trace := trace ls @
                     [StartingReplicationValue current_context
                        (replication_key_value (get_context_state (state ls) spc))]\<rparr>
      in case get_records w s current_context of
           None \<Rightarrow> None
         | Some items \<Rightarrow>
             (case sync_loop w s current_context ls0 items of
                (ls1, Some e) \<Rightarrow> Some (ls1, Some e)
              | (ls1, None) \<Rightarrow>
                  Some (if current_context = spc
                        then ls1\<lparr>state := set_context_state (state ls1) spc
                                   (finalize_state_progress_markers
                                      (get_context_state (state ls1) spc))\<rparr>
                        else ls1, None)))"

fun sync_contexts ::
  "world \<Rightarrow> list_member_stream \<Rightarrow> loop_state \<Rightarrow> pydict list \<Rightarrow> (loop_state \<times> exn option) option"
where
  "sync_contexts w s ls [] = Some (ls, None)"
| "sync_contexts w s ls (c # cs) =
     (case sync_context w s ls c of
        None \<Rightarrow> None
      | Some (ls', Some e) \<Rightarrow> Some (ls', Some e)
      | Some (ls', None) \<Rightarrow> sync_contexts w s ls' cs)"

text \<open>
  \<^verbatim>\<open>ListMemberStream._sync_records(context)\<close> on a stream state: the final loop state
  (its trace is everything written) and the exception that ended the sync, if any;
  \<open>None\<close> when a job poll never returns.
\<close>

definition context_list_of :: "list_member_stream \<Rightarrow> pydict option \<Rightarrow> pydict list" where
  "context_list_of s context =
     (case (case context of Some c \<Rightarrow> Some [c] | None \<Rightarrow> partitions s) of
        None \<Rightarrow> [[]]
      | Some cl \<Rightarrow> if cl = [] then [[]] else cl)"

definition sync_records ::
  "world \<Rightarrow> list_member_stream \<Rightarrow> pydict option \<Rightarrow> stream_state
     \<Rightarrow> (loop_state \<times> exn option) option"
where
  "sync_records w s context st =
     (case sync_contexts w s
             \<lparr>record_count = 0, partition_record_count = 0, child_context = None,
              state = st, trace = []\<rparr>
             (context_list_of s context) of
        None \<Rightarrow> None
      | Some (ls, Some e) \<Rightarrow> Some (ls, Some e)
      | Some (ls, None) \<Rightarrow>
          (let ls1 = (if context = None \<or> context = Some []
                      then ls\<lparr>state := finalize_stream_state (state ls)\<rparr> else ls);
               ls2 = ls1\<lparr>trace := trace ls1 @ [RecordCountLog (record_count ls1) context]\<rparr>
           in Some (ls2\<lparr>trace := trace ls2 @ [StateMessage (state ls2)]\<rparr>, None)))"

subsection \<open>A concrete stream and world\<close>

text \<open>
  Timestamps are day numbers.  \<open>demo_parse\<close> knows two dates; yesterday is day 3,
  both at class creation (\<open>signup_dt\<close>) and while records are processed.
\<close>

definition demo_parse :: "string \<Rightarrow> int option" where
  "demo_parse str =
     (if str = ''2024-01-05'' then Some 5 else if str = ''2024-01-01'' then Some 1 else None)"

definition demo_world :: world where
  "demo_world =
     \<lparr>api_post = (\<lambda>payload. Inr \<lparr>post_error = VNone, post_job_id = Some ''job1''\<rparr>),
      jobs = spec_example_client,
      files = flaky_transport,
      pendulum_parse = demo_parse,
      yesterday_utc = (\<lambda>n. 3),
      children_outcome = (\<lambda>cc. None)\<rparr>"

definition demo_stream :: list_member_stream where
  "demo_stream =
     \<lparr>name = ''list_members'',
      schema_keys = [''Profile Id'', ''List Id'', ''List Name'', ''List Signup'', ''Email Hash''],
      account_name = VStr ''acme'',
      selected = True,
      selectively_sync_children = True,
      signup_dt = 3,
      replication_key = ''List Signup'',
      STATE_MSG_FREQUENCY = 10000,
      MAX_RECORDS_LIMIT = None,
      partitions = None,
      state_partitioning_keys = None\<rparr>"

text \<open>What the parsed string gives, with the default for a string that does not parse.\<close>

definition parse_or_default :: "world \<Rightarrow> int \<Rightarrow> string \<Rightarrow> int" where
  "parse_or_default w yesterday str =
     (case pendulum_parse w str of None \<Rightarrow> yesterday | Some t \<Rightarrow> t)"

text \<open>Example rows of a list export and the loop state at the start of a sync.\<close>

definition member_without_profile :: pydict where
  "member_without_profile = [(''List Id'', VStr ''L1''), (''List Signup'', VStr ''2024-01-01'')]"

definition member_a :: pydict where
  "member_a = [(''Profile Id'', VStr ''U1''), (''List Id'', VStr ''L1''),
               (''List Signup'', VStr ''2024-01-05'')]"

definition start_state :: loop_state where
  "start_state =
     \<lparr>record_count = 0, partition_record_count = 0, child_context = None,
      state = \<lparr>stream_bookmark = empty_bookmark, partition_bookmarks = []\<rparr>, trace = []\<rparr>"

text \<open>A member who signed up on day 5, after the cutoff, and one without any signup
  field.\<close>

definition member_new :: pydict where
  "member_new = [(''Profile Id'', VStr ''U2''), (''List Id'', VStr ''L1''),
                 (''List Signup'', VStr ''2024-01-05''), (''list_signup'', VStr ''2024-01-05'')]"

definition member_old :: pydict where
  "member_old = [(''Profile Id'', VStr ''U3''), (''List Id'', VStr ''L1''),
                 (''List Signup'', VStr ''2024-01-01''), (''list_signup'', VStr ''2024-01-01'')]"

text \<open>
  Recognisers for the events of the trace; \<open>record_messages\<close> are the records written,
  in order.  \<open>ascending b vs\<close>: each value of \<open>vs\<close> is comparable with and not less
  than the one before it, the bookmark value \<open>b\<close> (if any) coming first;
  \<open>last_value b vs\<close> is the bookmark value after them.
\<close>

fun record_messages :: "event list \<Rightarrow> pydict list" where
  "record_messages [] = []"
| "record_messages (RecordMessage r # es) = r # record_messages es"
| "record_messages (e # es) = record_messages es"

fun ascending :: "pyval option \<Rightarrow> pyval list \<Rightarrow> bool" where
  "ascending b [] = True"
| "ascending b (v # vs) =
     ((case b of None \<Rightarrow> True | Some old \<Rightarrow> py_less v old = Inr False) \<and> ascending (Some v) vs)"

fun last_value :: "pyval option \<Rightarrow> pyval list \<Rightarrow> pyval option" where
  "last_value b [] = b"
| "last_value b (v # vs) = last_value (Some v) vs"



fun is_sync_children :: "event \<Rightarrow> bool" where
  "is_sync_children (SyncChildren cc) = True"
| "is_sync_children e = False"




text \<open>The info line that \<^verbatim>\<open>get_records\<close> writes for an error answer of the job
  submission.\<close>

definition submit_log :: "post_response \<Rightarrow> pyval \<Rightarrow> event list" where
  "submit_log response list_name =
     (if py_truthy (post_error response) then [SubmitErrorInfo list_name] else [])"

text \<open>
  A stream with two partitions and two worlds for it.  The submission for the list
  \<^verbatim>\<open>first\<close> gives job \<^verbatim>\<open>jobA\<close>, any other list job \<^verbatim>\<open>jobB\<close>, which is complete
  at the first poll and exports one row.  In \<open>timeout_world\<close> job \<^verbatim>\<open>jobA\<close> stays
  \<^verbatim>\<open>processing\<close> while 301 seconds pass per poll; in \<open>retry_error_world\<close> its first
  poll raises \<^verbatim>\<open>MaxRetryError\<close>.
\<close>

definition first_list :: pydict where
  "first_list = [(''list_id'', VStr ''L1''), (''list_name'', VStr ''first'')]"

definition second_list :: pydict where
  "second_list = [(''list_id'', VStr ''L2''), (''list_name'', VStr ''second'')]"

definition partitioned_stream :: list_member_stream where
  "partitioned_stream = demo_stream\<lparr>partitions := Some [first_list, second_list]\<rparr>"

definition submit_by_list :: "pydict \<Rightarrow> exn + post_response" where
  "submit_by_list payload =
     Inr \<lparr>post_error = VNone,
          post_job_id = Some (if map_of payload ''list'' = Some (VStr ''first'')
                              then ''jobA'' else ''jobB'')\<rparr>"

definition completed_response :: job_response where
  "completed_response = \<lparr>status = Some ''completed'', export_url = Some ''https://export/B.csv''\<rparr>"

definition export_row :: pydict where
  "export_row = [(''Profile Id'', VStr ''U9''), (''List Signup'', VStr ''2024-01-01''),
                 (''Color'', VStr ''red'')]"

definition one_row_transport :: transport where
  "one_row_transport =
     \<lparr>http_get = (\<lambda>url n. Inr ([export_row], None)),
      py_str = (\<lambda>v. case v of VStr str \<Rightarrow> str | _ \<Rightarrow> ''None'')\<rparr>"

definition timeout_world :: world where
  "timeout_world =
     \<lparr>api_post = submit_by_list,
      jobs = \<lparr>api_get_job = (\<lambda>jid i. if jid = ''jobA'' then Inr (stuck_responses i)
                                      else Inr completed_response),
              elapsed_seconds = (\<lambda>jid i. if jid = ''jobA'' then 301 * i else 0)\<rparr>,
      files = one_row_transport,
      pendulum_parse = demo_parse,
      yesterday_utc = (\<lambda>n. 3),
      children_outcome = (\<lambda>cc. None)\<rparr>"

definition retry_error_world :: world where
  "retry_error_world =
     \<lparr>api_post = submit_by_list,
      jobs = \<lparr>api_get_job = (\<lambda>jid i. if jid = ''jobA'' then Inl MaxRetryError
                                      else Inr completed_response),
              elapsed_seconds = (\<lambda>jid i. 0)\<rparr>,
      files = one_row_transport,
      pendulum_parse = demo_parse,
      yesterday_utc = (\<lambda>n. 3),
      children_outcome = (\<lambda>cc. None)\<rparr>"

definition empty_stream_state :: stream_state where
  "empty_stream_state = \<lparr>stream_bookmark = empty_bookmark, partition_bookmarks = []\<rparr>"

section \<open>Properties of the Job Manager\<close>

lemma upt_0_3: "[0..<3] = [0, Suc 0, 2]"
  by (simp add: eval_nat_numeral upt_conv_Cons)

lemma upt_0_2: "[0..<2] = [0, Suc 0]"
  by (simp add: eval_nat_numeral upt_conv_Cons)

lemma polls_log_step:
  "k < n \<Longrightarrow> polls_log rs k n = [JobStatusInfo (status (rs k)), Sleep 1] @ polls_log rs (Suc k) n"
  by (simp add: polls_log_def upt_conv_Cons)

lemma polls_log_empty: "polls_log rs n n = []"
  by (simp add: polls_log_def)

lemma poll_job_completes:
  assumes ok: "\<forall>j\<le>n. api_get_job c jid j = Inr (rs j)"
    and early: "\<forall>j<n. status (rs j) \<noteq> Some ''completed'' \<and> elapsed_seconds c jid j \<le> timeout"
    and fin: "status (rs n) = Some ''completed''"
    and intime: "elapsed_seconds c jid n \<le> timeout"
  shows "k \<le> n \<Longrightarrow> st0 \<noteq> Some ''completed'' \<Longrightarrow>
    poll_job c jid timeout k st0 response log =
      Some (log @ polls_log rs k n @ [JobStatusInfo (status (rs n)), Sleep 1],
            Inr (export_url (rs n)))"
proof (induction "n - k" arbitrary: k st0 response log)
  case 0
  then have kn: "k = n" by simp
  have "poll_job c jid timeout n st0 response log =
      poll_job c jid timeout (Suc n) (status (rs n)) (Some (rs n))
        (log @ [JobStatusInfo (status (rs n)), Sleep 1])"
    using ok intime "0.prems"(2) by (subst poll_job.simps) simp
  also have "\<dots> = Some (log @ [JobStatusInfo (status (rs n)), Sleep 1], Inr (export_url (rs n)))"
    using fin by (subst poll_job.simps) simp
  finally show ?case using kn by (simp add: polls_log_empty)
next
  case (Suc d)
  then have lt: "k < n" by simp
  have stk: "status (rs k) \<noteq> Some ''completed''" and elk: "elapsed_seconds c jid k \<le> timeout"
    using early lt by auto
  have getk: "api_get_job c jid k = Inr (rs k)" using ok lt by simp
  have "poll_job c jid timeout k st0 response log =
      poll_job c jid timeout (Suc k) (status (rs k)) (Some (rs k))
        (log @ [JobStatusInfo (status (rs k)), Sleep 1])"
    using getk elk Suc.prems(2) by (subst poll_job.simps) simp
  also have "\<dots> = Some ((log @ [JobStatusInfo (status (rs k)), Sleep 1]) @ polls_log rs (Suc k) n
                        @ [JobStatusInfo (status (rs n)), Sleep 1], Inr (export_url (rs n)))"
    using Suc.hyps(1)[of "Suc k"] Suc.hyps(2) lt stk by simp
  finally show ?case using lt by (simp add: polls_log_step)
qed

lemma poll_job_times_out:
  assumes ok: "\<forall>j\<le>n. api_get_job c jid j = Inr (rs j)"
    and early: "\<forall>j<n. status (rs j) \<noteq> Some ''completed'' \<and> elapsed_seconds c jid j \<le> timeout"
    and late: "timeout < elapsed_seconds c jid n"
  shows "k \<le> n \<Longrightarrow> st0 \<noteq> Some ''completed'' \<Longrightarrow>
    poll_job c jid timeout k st0 response log =
      Some (log @ polls_log rs k n @
              [JobStatusInfo (status (rs n)), JobTimeoutCritical jid timeout (status (rs n))],
            Inl SailthruJobTimeoutError)"
proof (induction "n - k" arbitrary: k st0 response log)
  case 0
  then have kn: "k = n" by simp
  have "poll_job c jid timeout n st0 response log =
      Some (log @ [JobStatusInfo (status (rs n)), JobTimeoutCritical jid timeout (status (rs n))],
            Inl SailthruJobTimeoutError)"
    using ok late "0.prems"(2) by (subst poll_job.simps) simp
  then show ?case using kn by (simp add: polls_log_empty)
next
  case (Suc d)
  then have lt: "k < n" by simp
  have stk: "status (rs k) \<noteq> Some ''completed''" and elk: "elapsed_seconds c jid k \<le> timeout"
    using early lt by auto
  have getk: "api_get_job c jid k = Inr (rs k)" using ok lt by simp
  have "poll_job c jid timeout k st0 response log =
      poll_job c jid timeout (Suc k) (status (rs k)) (Some (rs k))
        (log @ [JobStatusInfo (status (rs k)), Sleep 1])"
    using getk elk Suc.prems(2) by (subst poll_job.simps) simp
  also have "\<dots> = Some ((log @ [JobStatusInfo (status (rs k)), Sleep 1]) @ polls_log rs (Suc k) n
                        @ [JobStatusInfo (status (rs n)),
                           JobTimeoutCritical jid timeout (status (rs n))],
                      Inl SailthruJobTimeoutError)"
    using Suc.hyps(1)[of "Suc k"] Suc.hyps(2) lt stk by simp
  finally show ?case using lt by (simp add: polls_log_step)
qed

text \<open>
  Claim C3.  Let the first \<open>n\<close> polls answer with a status other than
  \<^verbatim>\<open>completed\<close> while the elapsed seconds read in each pass stay within the timeout.
  If poll \<open>n\<close> answers \<^verbatim>\<open>completed\<close> with the elapsed time still within the
  timeout, \<^verbatim>\<open>get_job_url\<close> returns the export location of that response; if instead
  the elapsed time read in pass \<open>n\<close> exceeds the timeout, it raises the job-timeout
  error right after logging the status of that last poll.  In both cases every
  earlier pass logged its status and slept exactly one second, and the default timeout
  is 600 seconds.
\<close>

theorem get_job_url_completed_or_timeout:
  assumes "\<forall>j\<le>n. api_get_job c jid j = Inr (rs j)"
    and "\<forall>j<n. status (rs j) \<noteq> Some ''completed'' \<and> elapsed_seconds c jid j \<le> timeout"
  shows "(status (rs n) = Some ''completed'' \<and> elapsed_seconds c jid n \<le> timeout \<longrightarrow>
            get_job_url c jid timeout =
              Some (polls_log rs 0 n @ [JobStatusInfo (status (rs n)), Sleep 1],
                    Inr (export_url (rs n))))
       \<and> (timeout < elapsed_seconds c jid n \<longrightarrow>
            get_job_url c jid timeout =
              Some (polls_log rs 0 n @
                      [JobStatusInfo (status (rs n)),
                       JobTimeoutCritical jid timeout (status (rs n))],
                    Inl SailthruJobTimeoutError))
       \<and> default_timeout = 600"
proof (intro conjI impI)
  assume "status (rs n) = Some ''completed'' \<and> elapsed_seconds c jid n \<le> timeout"
  then show "get_job_url c jid timeout =
      Some (polls_log rs 0 n @ [JobStatusInfo (status (rs n)), Sleep 1], Inr (export_url (rs n)))"
    using poll_job_completes[OF assms, of 0 "Some []" None "[]"]
    by (simp add: get_job_url_def)
next
  assume "timeout < elapsed_seconds c jid n"
  then show "get_job_url c jid timeout =
      Some (polls_log rs 0 n @
              [JobStatusInfo (status (rs n)), JobTimeoutCritical jid timeout (status (rs n))],
            Inl SailthruJobTimeoutError)"
    using poll_job_times_out[OF assms, of 0 "Some []" None "[]"]
    by (simp add: get_job_url_def)
next
  show "default_timeout = 600" by (simp add: default_timeout_def)
qed

theorem get_job_url_completed_or_timeout_witness:
  "get_job_url spec_example_client ''job1'' 600 =
     Some ([JobStatusInfo (Some ''submitted''), Sleep 1,
            JobStatusInfo (Some ''processing''), Sleep 1,
            JobStatusInfo (Some ''processing''), Sleep 1,
            JobStatusInfo (Some ''completed''), Sleep 1],
           Inr (Some ''https://export/1.csv''))
   \<and> get_job_url stuck_client ''job1'' 600 =
     Some ([JobStatusInfo (Some ''processing''), Sleep 1,
            JobStatusInfo (Some ''processing''), Sleep 1,
            JobStatusInfo (Some ''processing''),
            JobTimeoutCritical ''job1'' 600 (Some ''processing'')],
           Inl SailthruJobTimeoutError)"
proof -
  have a: "\<forall>j\<le>3. api_get_job spec_example_client ''job1'' j = Inr (spec_example_responses j)"
    by (simp add: spec_example_client_def)
  have b: "\<forall>j<3. status (spec_example_responses j) \<noteq> Some ''completed''
              \<and> elapsed_seconds spec_example_client ''job1'' j \<le> 600"
    by (simp add: spec_example_client_def spec_example_responses_def)
  have c: "\<forall>j\<le>2. api_get_job stuck_client ''job1'' j = Inr (stuck_responses j)"
    by (simp add: stuck_client_def)
  have d: "\<forall>j<2. status (stuck_responses j) \<noteq> Some ''completed''
              \<and> elapsed_seconds stuck_client ''job1'' j \<le> 600"
    by (simp add: stuck_client_def stuck_responses_def)
  have e: "status (spec_example_responses 3) = Some ''completed''
             \<and> elapsed_seconds spec_example_client ''job1'' 3 \<le> 600"
    by (simp add: spec_example_client_def spec_example_responses_def)
  have f: "600 < elapsed_seconds stuck_client ''job1'' 2"
    by (simp add: stuck_client_def)
  have l1: "polls_log spec_example_responses 0 3 = [JobStatusInfo (Some ''submitted''), Sleep 1,
            JobStatusInfo (Some ''processing''), Sleep 1,
            JobStatusInfo (Some ''processing''), Sleep 1]"
    by (simp add: polls_log_def upt_0_3 spec_example_responses_def)
  have l2: "polls_log stuck_responses 0 2 = [JobStatusInfo (Some ''processing''), Sleep 1,
            JobStatusInfo (Some ''processing''), Sleep 1]"
    by (simp add: polls_log_def upt_0_2 stuck_responses_def)
  have g: "get_job_url spec_example_client ''job1'' 600 =
              Some (polls_log spec_example_responses 0 3 @ [JobStatusInfo (status (spec_example_responses 3)), Sleep 1],
                    Inr (export_url (spec_example_responses 3)))"
    using get_job_url_completed_or_timeout[OF a b] e by blast
  have h: "get_job_url stuck_client ''job1'' 600 =
              Some (polls_log stuck_responses 0 2 @
                      [JobStatusInfo (status (stuck_responses 2)),
                       JobTimeoutCritical ''job1'' 600 (status (stuck_responses 2))],
                    Inl SailthruJobTimeoutError)"
    using get_job_url_completed_or_timeout[OF c d] f by blast
  show ?thesis
    unfolding g h l1 l2 by (simp add: spec_example_responses_def stuck_responses_def)
qed

section \<open>Properties of the Resilient Stream Decoder\<close>

lemma retry_exception_returns:
  "target n = Inr ret \<Longrightarrow> retry_exception exc r n target = Inr ret"
  by (cases r) simp_all

lemma process_job_csv_is_generator:
  "process_job_csv s t url parent_params =
     Inr (process_job_csv_body s t url parent_params)"
  by (simp add: process_job_csv_def on_exception_def call_generator_def retry_exception_returns)

lemma iterate_job_csv_first_get:
  "iterate_job_csv s t url parent_params =
     process_job_csv_body s t url parent_params 0"
  by (simp add: iterate_job_csv_def process_job_csv_is_generator)

lemma yielded_append: "yielded (xs @ ys) = yielded xs @ yielded ys"
  by (induction xs rule: yielded.induct) simp_all

lemma yielded_map_Yield: "yielded (map (\<lambda>x. Yield (f x)) xs) = map f xs"
  by (induction xs) simp_all

lemma raised_map_Yield: "raised (map (\<lambda>x. Yield (f x)) xs @ ys) = raised ys"
  by (induction xs) simp_all

text \<open>
  Claim C2, on the transport of the spec's example (the body is truncated after row 2
  of 5 on the first two GETs and complete on the third): the decoder issues one GET,
  yields rows 1 and 2, writes the stopping-early line and ends without raising.  The
  decorator never makes a second attempt, so rows 3 to 5 are never yielded.
\<close>

theorem process_job_csv_no_retry_on_truncation:
  "iterate_job_csv blast_query_stream flaky_transport (Some ''https://export/1.csv'') None =
     [Emit (HttpGet (Some ''https://export/1.csv'')),
      Yield [(''id'', VStr ''1'')], Yield [(''id'', VStr ''2'')],
      Emit StoppingEarlyInfo]"
  by (simp add: iterate_job_csv_first_get process_job_csv_body_def flaky_transport_def
      five_rows_def decode_row_def blast_query_stream_def)

text \<open>
  The decoder on any transport: whatever the first GET streams is all the decoder
  ever yields.  A truncation after some rows gives exactly those rows, the
  stopping-early line and a normal end; no further GET is issued.
\<close>

lemma process_job_csv_truncated:
  assumes "http_get t url 0 = Inr (rows, Some ChunkedEncodingError)"
  shows "iterate_job_csv s t url parent_params =
           Emit (HttpGet url) # map (\<lambda>row. Yield (decode_row s t parent_params row)) rows
             @ [Emit StoppingEarlyInfo]"
  using assms by (simp add: iterate_job_csv_first_get process_job_csv_body_def)

lemma process_job_csv_truncated_yields:
  assumes "http_get t url 0 = Inr (rows, Some ChunkedEncodingError)"
  shows "yielded (iterate_job_csv s t url parent_params) = map (decode_row s t parent_params) rows
       \<and> raised (iterate_job_csv s t url parent_params) = None"
  using process_job_csv_truncated[OF assms, of s parent_params]
  by (simp add: yielded_append yielded_map_Yield raised_map_Yield)

section \<open>Properties of the Paginated Fetch Engine\<close>

lemma request_records_is_generator:
  "request_records p context = Inr (request_records_body p context)"
  by (simp add: request_records_def on_exception_def call_generator_def retry_exception_returns)

lemma iterate_request_records_body:
  "iterate_request_records p context fuel = request_records_body p context fuel"
  by (simp add: iterate_request_records_def request_records_is_generator)

lemma user_context_payload:
  "users_request_payload user_context =
     Inr [(''id'', VStr ''U1''), (''key'', VStr ''sid''), (''fields'', users_fields)]"
  by (simp add: users_request_payload_def user_context_def)

declare token_before.simps(2) [simp del]

lemma request_loop_pages:
  assumes ok: "\<forall>j\<le>n. api_request p request_data j = Inr (rs j)"
    and more: "\<forall>j<n. py_truthy (token_before p rs (Suc j))
                   \<and> token_before p rs (Suc j) \<noteq> token_before p rs j"
    and last: "\<not> py_truthy (token_before p rs (Suc n))
              \<or> token_before p rs (Suc n) = token_before p rs n"
  shows "k \<le> n \<Longrightarrow> n - k < fuel \<Longrightarrow>
    request_loop fuel p request_data k (token_before p rs k) =
      Some (map (\<lambda>j. Yield (rs j)) [k..<Suc n] @
            (if py_truthy (token_before p rs (Suc n)) then [Raise RuntimeError] else []))"
proof (induction "n - k" arbitrary: k fuel)
  case 0
  then have kn: "k = n" by simp
  obtain f where fuel: "fuel = Suc f" using "0.prems"(2) by (cases fuel) auto
  have get: "api_request p request_data n = Inr (rs n)" using ok by simp
  show ?case using last get unfolding kn fuel by (auto simp: Let_def token_before.simps(2))
next
  case (Suc d)
  then have lt: "k < n" by simp
  obtain f where fuel: "fuel = Suc f" using Suc.prems(2) by (cases fuel) auto
  have get: "api_request p request_data k = Inr (rs k)" using ok lt by simp
  have tk: "py_truthy (token_before p rs (Suc k))"
    and nk: "token_before p rs (Suc k) \<noteq> token_before p rs k"
    using more lt by auto
  have ih: "request_loop f p request_data (Suc k) (token_before p rs (Suc k)) =
      Some (map (\<lambda>j. Yield (rs j)) [Suc k..<Suc n] @
            (if py_truthy (token_before p rs (Suc n)) then [Raise RuntimeError] else []))"
    using Suc.hyps(1)[of "Suc k" f] Suc.hyps(2) Suc.prems lt fuel by simp
  have "request_loop (Suc f) p request_data k (token_before p rs k) =
      map_option (\<lambda>items. Yield (rs k) # items)
        (request_loop f p request_data (Suc k) (token_before p rs (Suc k)))"
    using get tk nk by (simp add: Let_def token_before.simps(2))
  also have "\<dots> = Some (map (\<lambda>j. Yield (rs j)) [k..<Suc n] @
            (if py_truthy (token_before p rs (Suc n)) then [Raise RuntimeError] else []))"
  proof -
    have upt: "[k..<Suc n] = k # [Suc k..<Suc n]"
      using lt by (simp add: upt_conv_Cons del: upt_Suc)
    show ?thesis unfolding ih upt by simp
  qed
  finally show ?case unfolding fuel .
qed

text \<open>
  Claim C4, as the code has it.  Let requests \<open>0, ..., n\<close> succeed, and let every page
  before page \<open>n\<close> name a next token that differs from the token before it.  If the
  token extracted after page \<open>n\<close> equals the prior token, the fetch yields the records
  of all pages \<open>0, ..., n\<close> (the page that carried the repeated token included, since
  records are yielded before the token is compared) and then raises the
  pagination-loop error; if page \<open>n\<close> names no next token, the fetch yields the
  records of pages \<open>0, ..., n\<close> and ends.
\<close>

theorem request_records_pagination:
  assumes "users_request_payload context = Inr request_data"
    and "\<forall>j\<le>n. api_request p request_data j = Inr (rs j)"
    and "\<forall>j<n. py_truthy (token_before p rs (Suc j))
                   \<and> token_before p rs (Suc j) \<noteq> token_before p rs j"
    and "n < fuel"
  shows "(py_truthy (token_before p rs (Suc n))
            \<and> token_before p rs (Suc n) = token_before p rs n \<longrightarrow>
          iterate_request_records p context fuel =
            Some (map (\<lambda>j. Yield (rs j)) [0..<Suc n] @ [Raise RuntimeError]))
       \<and> (\<not> py_truthy (token_before p rs (Suc n)) \<longrightarrow>
          iterate_request_records p context fuel = Some (map (\<lambda>j. Yield (rs j)) [0..<Suc n]))"
proof (intro conjI impI)
  assume a: "py_truthy (token_before p rs (Suc n))
            \<and> token_before p rs (Suc n) = token_before p rs n"
  then have last: "\<not> py_truthy (token_before p rs (Suc n))
              \<or> token_before p rs (Suc n) = token_before p rs n" by simp
  have "request_loop fuel p request_data 0 (token_before p rs 0) =
      Some (map (\<lambda>j. Yield (rs j)) [0..<Suc n] @
            (if py_truthy (token_before p rs (Suc n)) then [Raise RuntimeError] else []))"
    using request_loop_pages[OF assms(2) assms(3) last, of 0 fuel] assms(4) by simp
  then show "iterate_request_records p context fuel =
            Some (map (\<lambda>j. Yield (rs j)) [0..<Suc n] @ [Raise RuntimeError])"
    using conjunct1[OF a] assms(1)
    by (simp add: iterate_request_records_body request_records_body_def)
next
  assume a: "\<not> py_truthy (token_before p rs (Suc n))"
  then have last: "\<not> py_truthy (token_before p rs (Suc n))
              \<or> token_before p rs (Suc n) = token_before p rs n" by simp
  have "request_loop fuel p request_data 0 (token_before p rs 0) =
      Some (map (\<lambda>j. Yield (rs j)) [0..<Suc n] @
            (if py_truthy (token_before p rs (Suc n)) then [Raise RuntimeError] else []))"
    using request_loop_pages[OF assms(2) assms(3) last, of 0 fuel] assms(4) by simp
  then show "iterate_request_records p context fuel = Some (map (\<lambda>j. Yield (rs j)) [0..<Suc n])"
    using a assms(1) by (simp add: iterate_request_records_body request_records_body_def)
qed

lemma looping_tokens:
  "token_before looping_backend looping_pages (Suc 0) = VStr ''a''"
  "token_before looping_backend looping_pages (Suc (Suc 0)) = VStr ''b''"
  "token_before looping_backend looping_pages (Suc (Suc (Suc 0))) = VStr ''b''"
  by (simp_all add: looping_backend_def looping_pages_def token_field_def token_before.simps(2))

theorem request_records_pagination_witness:
  "iterate_request_records looping_backend user_context 3 =
     Some [Yield (looping_pages 0), Yield (looping_pages 1), Yield (looping_pages 2),
           Raise RuntimeError]
   \<and> iterate_request_records single_page_backend user_context 1 =
     Some [Yield [(''email'', VStr ''a@example.com'')]]"
proof -
  let ?rd = "[(''id'', VStr ''U1''), (''key'', VStr ''sid''), (''fields'', users_fields)]"
  have lt: "(2::nat) < 3" and lt1: "(0::nat) < 1" by simp_all
  have ok: "\<forall>j\<le>2. api_request looping_backend ?rd j = Inr (looping_pages j)"
    by (simp add: looping_backend_def)
  have more: "\<forall>j<2. py_truthy (token_before looping_backend looping_pages (Suc j))
       \<and> token_before looping_backend looping_pages (Suc j)
           \<noteq> token_before looping_backend looping_pages j"
  proof (intro allI impI)
    fix j :: nat assume "j < 2"
    then consider "j = 0" | "j = Suc 0" by linarith
    then show "py_truthy (token_before looping_backend looping_pages (Suc j))
       \<and> token_before looping_backend looping_pages (Suc j)
           \<noteq> token_before looping_backend looping_pages j"
      by cases (simp_all add: looping_tokens)
  qed
  have rep: "py_truthy (token_before looping_backend looping_pages (Suc 2))
       \<and> token_before looping_backend looping_pages (Suc 2)
           = token_before looping_backend looping_pages 2"
    by (simp add: looping_tokens eval_nat_numeral)
  have A: "iterate_request_records looping_backend user_context 3 =
            Some (map (\<lambda>j. Yield (looping_pages j)) [0..<Suc 2] @ [Raise RuntimeError])"
    using request_records_pagination[OF user_context_payload ok more lt] rep by blast
  let ?one = "\<lambda>j::nat. [(''email'', VStr ''a@example.com'')]"
  have ok1: "\<forall>j\<le>0. api_request single_page_backend ?rd j = Inr (?one j)"
    by (simp add: single_page_backend_def)
  have more1: "\<forall>j<0. py_truthy (token_before single_page_backend ?one (Suc j))
       \<and> token_before single_page_backend ?one (Suc j) \<noteq> token_before single_page_backend ?one j"
    by simp
  have fin: "\<not> py_truthy (token_before single_page_backend ?one (Suc 0))"
    by (simp add: single_page_backend_def token_field_def token_before.simps(2))
  have B: "iterate_request_records single_page_backend user_context 1 =
            Some (map (\<lambda>j. Yield (?one j)) [0..<Suc 0])"
    using request_records_pagination[OF user_context_payload ok1 more1 lt1] fin by blast
  have u: "[0..<Suc 2] = [0, Suc 0, 2]" by (simp add: eval_nat_numeral upt_conv_Cons)
  show ?thesis unfolding A B u by simp
qed

text \<open>
  Counterexample to claim C4 as stated: page 3 repeats the token of page 2, and the
  record of page 3 is yielded before the error is raised.
\<close>

theorem request_records_yields_looping_page:
  "iterate_request_records looping_backend user_context 10 =
     Some [Yield [(''page'', VInt 1), (''next'', VStr ''a'')],
           Yield [(''page'', VInt 2), (''next'', VStr ''b'')],
           Yield [(''page'', VInt 3), (''next'', VStr ''b'')],
           Raise RuntimeError]"
  by (simp add: iterate_request_records_body request_records_body_def user_context_payload
      eval_nat_numeral looping_backend_def looping_pages_def token_field_def Let_def)

lemma request_loop_failing_backend:
  "request_loop fuel failing_backend request_data n tok = None"
  by (induction fuel arbitrary: n) (simp_all add: failing_backend_def)

text \<open>
  Claim C5 on a backend whose every request raises the client error: the loop logs the
  error and asks again, without end.  Whatever number of passes is allowed, the fetch
  is still running when they are used up.
\<close>

theorem request_records_client_error_never_ends:
  "\<forall>fuel. iterate_request_records failing_backend user_context fuel = None"
  by (simp add: iterate_request_records_body request_records_body_def user_context_payload
      request_loop_failing_backend)

text \<open>When only the first request raises the client error, the same request is issued
  again and its page is yielded: the page is not abandoned.\<close>

lemma request_records_client_error_retried:
  "iterate_request_records recovering_backend user_context 2 =
     Some [Emit (ClientErrorInfo (Some (VStr ''U1''))), Yield [(''email'', VStr ''a@example.com'')]]"
  by (simp add: iterate_request_records_body request_records_body_def user_context_payload
      eval_nat_numeral recovering_backend_def token_field_def Let_def)

section \<open>Properties of the Incremental Sync Engine\<close>

subsection \<open>The signup timestamp\<close>

lemma py_parse_str:
  "py_parse w (VStr str) = (case pendulum_parse w str of None \<Rightarrow> Inl ValueError | Some t \<Rightarrow> Inr t)"
  by (simp add: py_parse_def)

text \<open>
  Claim C7, as the code has it, for fields that hold strings.  The signup timestamp is
  the parsed explicit signup field \<^verbatim>\<open>list_signup\<close> when that is present and
  non-empty.  Otherwise the profile-creation field is consulted: when it is present and
  non-empty it is parsed; when it is present and empty the generic signup-date field
  is parsed, if present.  Whenever a consulted field is absent (also the
  profile-creation field, in which case the signup-date field is never looked at) or a
  string does not parse, the timestamp is yesterday (UTC) as read at that moment.
\<close>

theorem derive_list_signup_chain:
  "(map_of rec ''list_signup'' = Some (VStr a) \<and> a \<noteq> [] \<longrightarrow>
      derive_list_signup w yesterday rec = Inr (parse_or_default w yesterday a))
 \<and> ((map_of rec ''list_signup'' = None \<or> map_of rec ''list_signup'' = Some (VStr [])) \<longrightarrow>
      (map_of rec ''profile_created_date'' = Some (VStr p) \<and> p \<noteq> [] \<longrightarrow>
         derive_list_signup w yesterday rec = Inr (parse_or_default w yesterday p))
    \<and> (map_of rec ''profile_created_date'' = Some (VStr []) \<and>
         map_of rec ''signup_date'' = Some (VStr d) \<longrightarrow>
         derive_list_signup w yesterday rec = Inr (parse_or_default w yesterday d))
    \<and> (map_of rec ''profile_created_date'' = Some (VStr []) \<and>
         map_of rec ''signup_date'' = None \<longrightarrow>
         derive_list_signup w yesterday rec = Inr yesterday)
    \<and> (map_of rec ''profile_created_date'' = None \<longrightarrow>
         derive_list_signup w yesterday rec = Inr yesterday))"
  by (auto simp: derive_list_signup_def signup_lookup_def profile_or_signup_date_def
      py_parse_str parse_or_default_def split: option.splits)

theorem derive_list_signup_chain_witness:
  "derive_list_signup demo_world 3 [(''list_signup'', VStr ''2024-01-05''), (''signup_date'', VStr ''2024-01-01'')] = Inr 5
 \<and> derive_list_signup demo_world 3 [(''list_signup'', VStr []), (''profile_created_date'', VStr ''2024-01-01'')] = Inr 1
 \<and> derive_list_signup demo_world 3 [(''profile_created_date'', VStr []), (''signup_date'', VStr ''2024-01-05'')] = Inr 5
 \<and> derive_list_signup demo_world 3 [(''profile_created_date'', VStr [])] = Inr 3
 \<and> derive_list_signup demo_world 3 [(''signup_date'', VStr ''2024-01-05'')] = Inr 3
 \<and> derive_list_signup demo_world 3 [(''list_signup'', VStr ''soon'')] = Inr 3"
  using derive_list_signup_chain[of "[(''list_signup'', VStr ''2024-01-05''), (''signup_date'', VStr ''2024-01-01'')]" "''2024-01-05''" demo_world 3]
    derive_list_signup_chain[of "[(''list_signup'', VStr []), (''profile_created_date'', VStr ''2024-01-01'')]" _ demo_world 3 "''2024-01-01''"]
    derive_list_signup_chain[of "[(''profile_created_date'', VStr []), (''signup_date'', VStr ''2024-01-05'')]" _ demo_world 3 _ "''2024-01-05''"]
    derive_list_signup_chain[of "[(''profile_created_date'', VStr [])]" _ demo_world 3]
    derive_list_signup_chain[of "[(''signup_date'', VStr ''2024-01-05'')]" _ demo_world 3]
    derive_list_signup_chain[of "[(''list_signup'', VStr ''soon'')]" "''soon''" demo_world 3]
  by (simp add: parse_or_default_def demo_world_def demo_parse_def)

text \<open>
  Counterexample to claim C7 as stated: a record with no explicit signup field and no
  profile-creation field, whose generic signup-date field parses to day 5, gets the
  default (day 3), not the signup date.
\<close>

theorem derive_list_signup_skips_signup_date:
  "derive_list_signup demo_world 3 [(''signup_date'', VStr ''2024-01-05'')] = Inr 3
   \<and> py_parse demo_world (VStr ''2024-01-05'') = Inr 5"
  by (simp add: derive_list_signup_def signup_lookup_def profile_or_signup_date_def
      py_parse_def demo_world_def demo_parse_def)

subsection \<open>Child context derivation\<close>

lemma get_child_context_ignores_context:
  "get_child_context rec c = get_child_context rec c'"
  by (simp add: get_child_context_def)

lemma process_record_child_context_fails:
  "get_child_context rec0 (child_context ls) = Inl e \<Longrightarrow>
   process_record w s ctx ls rec0 = (ls, Some e)"
  by (simp add: process_record_def)

text \<open>
  Claim C9, as the code has it.  A record without \<^verbatim>\<open>List Id\<close> or without
  \<^verbatim>\<open>Profile Id\<close> makes \<^verbatim>\<open>get_child_context\<close> raise \<^verbatim>\<open>KeyError\<close>; nothing
  catches it, so the record loop of the parent context ends there with that error:
  nothing is written for this record and no later record is processed.  Only the list
  name is optional: a record that has both identifiers but neither \<^verbatim>\<open>List Name\<close>
  nor \<^verbatim>\<open>Name\<close> gets a child context without a list name, and no error.
\<close>

theorem missing_required_field_aborts_loop:
  "(map_of rec0 ''List Id'' = None \<longrightarrow>
      sync_loop w s ctx ls (Yield rec0 # items) = (ls, Some (KeyError ''List Id'')))
 \<and> (map_of rec0 ''List Id'' = Some l \<and> map_of rec0 ''Profile Id'' = None \<longrightarrow>
      sync_loop w s ctx ls (Yield rec0 # items) = (ls, Some (KeyError ''Profile Id'')))
 \<and> (map_of rec0 ''List Id'' = Some l \<and> map_of rec0 ''Profile Id'' = Some u \<and>
     map_of rec0 ''List Name'' = None \<and> map_of rec0 ''Name'' = None \<longrightarrow>
      get_child_context rec0 c = Inr [(''list_id'', l), (''user_id'', u)])"
  by (auto simp: process_record_def get_child_context_def)

theorem missing_required_field_aborts_loop_witness:
  "sync_loop demo_world demo_stream None start_state
      [Yield [(''Profile Id'', VStr ''U1'')], Yield member_a] = (start_state, Some (KeyError ''List Id''))
 \<and> sync_loop demo_world demo_stream None start_state
      [Yield member_without_profile, Yield member_a] = (start_state, Some (KeyError ''Profile Id''))
 \<and> get_child_context member_a None = Inr [(''list_id'', VStr ''L1''), (''user_id'', VStr ''U1'')]"
  using missing_required_field_aborts_loop[of "[(''Profile Id'', VStr ''U1'')]" demo_world demo_stream None start_state "[Yield member_a]"]
   missing_required_field_aborts_loop[of member_without_profile demo_world demo_stream None start_state "[Yield member_a]" "VStr ''L1''"]
   missing_required_field_aborts_loop[of member_a _ _ _ _ _ "VStr ''L1''" "VStr ''U1''" None]
  by (simp add: member_without_profile_def member_a_def)

text \<open>
  Counterexample to claim C9 as stated: the first of two records lacks
  \<^verbatim>\<open>Profile Id\<close>; the loop of the parent ends with the \<^verbatim>\<open>KeyError\<close> and the
  second, well-formed record is never processed (the trace stays empty).
\<close>

theorem missing_profile_id_aborts_parent:
  "sync_loop demo_world demo_stream None start_state [Yield member_without_profile, Yield member_a]
     = (start_state, Some (KeyError ''Profile Id''))
   \<and> trace start_state = []"
  by (simp add: process_record_def get_child_context_def member_without_profile_def start_state_def)

subsection \<open>Selective child sync\<close>

lemma write_record_trace:
  "\<exists>evs. trace (fst (write_record s ctx rec ls)) = trace ls @ evs
         \<and> filter is_sync_children evs = []"
  by (auto simp: write_record_def Let_def split: sum.splits)

lemma process_record_after_children:
  assumes "get_child_context rec0 (child_context ls) = Inr cc"
    and "derive_list_signup w (yesterday_utc w (record_count ls))
           (merge_state_context (state_partition_context s ctx) rec0) = Inr t"
  shows "\<exists>evs. trace (fst (process_record w s ctx ls rec0)) =
           trace ls @ (if selectively_sync_children s \<and> signup_dt s < t then [SyncChildren cc] else []) @ evs
         \<and> filter is_sync_children evs = []"
proof -
  let ?rec = "merge_state_context (state_partition_context s ctx) rec0"
  let ?ls1 = "ls\<lparr>child_context := Some cc\<rparr>"
  let ?c = "selectively_sync_children s \<and> signup_dt s < t"
  let ?ls2 = "if ?c then ?ls1\<lparr>trace := trace ls @ [SyncChildren cc]\<rparr> else ?ls1"
  obtain evs where evs: "trace (fst (write_record s ctx ?rec ?ls2)) = trace ?ls2 @ evs"
    "filter is_sync_children evs = []"
    using write_record_trace by blast
  have t2: "trace ?ls2 = trace ls @ (if ?c then [SyncChildren cc] else [])" by simp
  show ?thesis
  proof (cases "?c \<and> children_outcome w cc \<noteq> None")
    case True
    then show ?thesis using assms
      by (auto simp: process_record_def sync_children_def Let_def)
  next
    case False
    note nf = this
    show ?thesis
    proof (cases "check_max_record_limit s (record_count ls)")
      case (Some e)
      then show ?thesis using assms nf
        by (auto simp: process_record_def sync_children_def Let_def)
    next
      case None
      show ?thesis
      proof (cases "selected s")
        case False
        then show ?thesis using assms nf None
          by (auto simp: process_record_def sync_children_def Let_def)
      next
        case True
        have "trace (fst (process_record w s ctx ls rec0)) = trace (fst (write_record s ctx ?rec ?ls2))"
          using assms nf None True
          by (auto simp: process_record_def sync_children_def Let_def split: prod.splits option.splits)
        then show ?thesis using evs t2 by (metis append.assoc)
      qed
    qed
  qed
qed

text \<open>
  Claim C8.  For a stream with selective child sync enabled and a record whose child
  context \<open>cc\<close> and signup timestamp \<open>t\<close> are derived, the pass of the loop for this
  record starts with the call \<^verbatim>\<open>_sync_children(cc)\<close> if \<open>t\<close> is strictly after the
  cutoff \<open>signup_dt\<close>, and calls it at no other point; if \<open>t\<close> is equal to or before
  the cutoff the pass makes no such call.  The call precedes everything else the pass
  writes, and the next record is taken up only after the pass.
\<close>

theorem child_sync_iff_after_cutoff:
  assumes "selectively_sync_children s"
    and "get_child_context rec0 (child_context ls) = Inr cc"
    and "derive_list_signup w (yesterday_utc w (record_count ls))
           (merge_state_context (state_partition_context s ctx) rec0) = Inr t"
  shows "\<exists>evs. trace (fst (process_record w s ctx ls rec0)) =
           trace ls @ (if signup_dt s < t then [SyncChildren cc] else []) @ evs
         \<and> filter is_sync_children evs = []"
  using process_record_after_children[OF assms(2,3)] assms(1) by simp

lemma demo_child_context:
  "get_child_context member_new (child_context start_state) =
     Inr [(''list_id'', VStr ''L1''), (''user_id'', VStr ''U2'')]"
  "get_child_context member_a (child_context start_state) =
     Inr [(''list_id'', VStr ''L1''), (''user_id'', VStr ''U1'')]"
  by (simp_all add: get_child_context_def member_new_def member_a_def)

lemma demo_merge: "merge_state_context (state_partition_context demo_stream None) rec = rec"
  by (simp add: merge_state_context_def state_partition_context_def)

lemma demo_signup:
  "derive_list_signup demo_world (yesterday_utc demo_world (record_count start_state))
     (merge_state_context (state_partition_context demo_stream None) member_new) = Inr 5"
  "derive_list_signup demo_world (yesterday_utc demo_world (record_count start_state))
     (merge_state_context (state_partition_context demo_stream None) member_a) = Inr 3"
  by (simp_all add: demo_merge derive_list_signup_def signup_lookup_def profile_or_signup_date_def
      py_parse_def demo_world_def demo_parse_def member_new_def member_a_def)

theorem child_sync_iff_after_cutoff_witness:
  "(\<exists>evs. trace (fst (process_record demo_world demo_stream None start_state member_new)) =
           trace start_state @ [SyncChildren [(''list_id'', VStr ''L1''), (''user_id'', VStr ''U2'')]] @ evs
         \<and> filter is_sync_children evs = [])
 \<and> (\<exists>evs. trace (fst (process_record demo_world demo_stream None start_state member_a)) =
           trace start_state @ evs
         \<and> filter is_sync_children evs = [])"
proof -
  have sel: "selectively_sync_children demo_stream" by (simp add: demo_stream_def)
  have cut: "signup_dt demo_stream < 5" "\<not> signup_dt demo_stream < 3"
    by (simp_all add: demo_stream_def)
  show ?thesis
    using child_sync_iff_after_cutoff[OF sel demo_child_context(1) demo_signup(1)]
      child_sync_iff_after_cutoff[OF sel demo_child_context(2) demo_signup(2)] cut
    by simp
qed

subsection \<open>Ordering violations\<close>

lemma record_messages_append:
  "record_messages (xs @ ys) = record_messages xs @ record_messages ys"
  by (induction xs rule: record_messages.induct) simp_all

lemma map_of_dict_set: "map_of (dict_set k v d) k = Some v"
  by (induction d) auto

lemma get_set_context_state:
  "get_context_state (set_context_state st spc b) spc = b"
  by (cases spc) (simp_all add: get_context_state_def set_context_state_def map_of_dict_set)

lemma increment_in_order:
  assumes "map_of rec (replication_key s) = Some v"
    and "case replication_key_value b of None \<Rightarrow> True | Some old \<Rightarrow> py_less v old = Inr False"
  shows "increment_stream_state s rec b = Inr (b\<lparr>replication_key_value := Some v\<rparr>)"
  using assms by (auto simp: increment_stream_state_def split: option.splits)

lemma increment_out_of_order:
  assumes "map_of rec (replication_key s) = Some v"
    and "replication_key_value b = Some old" and "py_less v old = Inr True"
  shows "increment_stream_state s rec b = Inl InvalidStreamSortException"
  using assms by (simp add: increment_stream_state_def)

lemma process_record_written:
  assumes "selected s" and "STATE_MSG_FREQUENCY s \<noteq> 0" and "MAX_RECORDS_LIMIT s = None"
    and "\<forall>cc. children_outcome w cc = None"
    and "get_child_context r (child_context ls) = Inr cc"
    and "derive_list_signup w (yesterday_utc w (record_count ls))
           (merge_state_context (state_partition_context s ctx) r) = Inr t"
    and "increment_stream_state s (merge_state_context (state_partition_context s ctx) r)
           (get_context_state (state ls) (state_partition_context s ctx)) = Inr b"
  shows "\<exists>ls'. process_record w s ctx ls r = (ls', None)
           \<and> state ls' = set_context_state (state ls) (state_partition_context s ctx) b
           \<and> record_messages (trace ls') =
               record_messages (trace ls) @ [merge_state_context (state_partition_context s ctx) r]"
  using assms
  by (auto simp: process_record_def write_record_def sync_children_def check_max_record_limit_def
      Let_def record_messages_append)

lemma process_record_sort_error:
  assumes "selected s" and "STATE_MSG_FREQUENCY s \<noteq> 0" and "MAX_RECORDS_LIMIT s = None"
    and "\<forall>cc. children_outcome w cc = None"
    and "get_child_context r (child_context ls) = Inr cc"
    and "derive_list_signup w (yesterday_utc w (record_count ls))
           (merge_state_context (state_partition_context s ctx) r) = Inr t"
    and "increment_stream_state s (merge_state_context (state_partition_context s ctx) r)
           (get_context_state (state ls) (state_partition_context s ctx)) = Inl InvalidStreamSortException"
  shows "\<exists>ls'. process_record w s ctx ls r = (ls', Some InvalidStreamSortException)
           \<and> record_messages (trace ls') =
               record_messages (trace ls) @ [merge_state_context (state_partition_context s ctx) r]"
  using assms
  by (auto simp: process_record_def write_record_def sync_children_def check_max_record_limit_def
      Let_def record_messages_append)


lemma sync_loop_sort_error:
  assumes sel: "selected s" and frq: "STATE_MSG_FREQUENCY s \<noteq> 0"
    and lim: "MAX_RECORDS_LIMIT s = None"
    and kids: "\<forall>cc. children_outcome w cc = None"
    and bad_key: "map_of (merge_state_context (state_partition_context s ctx) bad) (replication_key s) = Some new"
    and less: "py_less new old = Inr True"
  shows "\<forall>r\<in>set (pre @ [bad]).
            (\<exists>cc. get_child_context r None = Inr cc)
          \<and> (\<forall>y. \<exists>t. derive_list_signup w y (merge_state_context (state_partition_context s ctx) r) = Inr t)
     \<Longrightarrow> map (\<lambda>r. map_of (merge_state_context (state_partition_context s ctx) r) (replication_key s)) pre
           = map Some vs
     \<Longrightarrow> ascending (replication_key_value (get_context_state (state ls) (state_partition_context s ctx))) vs
     \<Longrightarrow> last_value (replication_key_value (get_context_state (state ls) (state_partition_context s ctx))) vs
           = Some old
     \<Longrightarrow> \<exists>ls'. sync_loop w s ctx ls (map Yield (pre @ bad # post)) = (ls', Some InvalidStreamSortException)
             \<and> record_messages (trace ls') =
                 record_messages (trace ls)
                   @ map (merge_state_context (state_partition_context s ctx)) (pre @ [bad])"
proof (induction pre arbitrary: ls vs)
  case Nil
  let ?spc = "state_partition_context s ctx"
  from Nil.prems(2) have vs: "vs = []" by simp
  from Nil.prems(4) vs
  have old: "replication_key_value (get_context_state (state ls) ?spc) = Some old" by simp
  obtain cc where cc: "get_child_context bad (child_context ls) = Inr cc"
    using Nil.prems(1) get_child_context_ignores_context[of bad "child_context ls" None] by auto
  have "\<forall>y. \<exists>t. derive_list_signup w y (merge_state_context ?spc bad) = Inr t"
    using Nil.prems(1) by simp
  then obtain t where t: "derive_list_signup w (yesterday_utc w (record_count ls))
      (merge_state_context ?spc bad) = Inr t"
    by blast
  have inc: "increment_stream_state s (merge_state_context ?spc bad)
      (get_context_state (state ls) ?spc) = Inl InvalidStreamSortException"
    using increment_out_of_order[OF bad_key old less] .
  obtain ls' where "process_record w s ctx ls bad = (ls', Some InvalidStreamSortException)"
    and "record_messages (trace ls') = record_messages (trace ls) @ [merge_state_context ?spc bad]"
    using process_record_sort_error[OF sel frq lim kids cc t inc] by blast
  then show ?case by simp
next
  case (Cons r pre)
  let ?spc = "state_partition_context s ctx"
  let ?m = "merge_state_context ?spc"
  from Cons.prems(2) obtain v vs' where vs: "vs = v # vs'"
    and key: "map_of (?m r) (replication_key s) = Some v"
    and keys': "map (\<lambda>r. map_of (?m r) (replication_key s)) pre = map Some vs'"
    by (cases vs) auto
  from Cons.prems(3) vs
  have ord: "case replication_key_value (get_context_state (state ls) ?spc) of
               None \<Rightarrow> True | Some old \<Rightarrow> py_less v old = Inr False"
    and asc': "ascending (Some v) vs'" by simp_all
  from Cons.prems(4) vs have last': "last_value (Some v) vs' = Some old" by simp
  obtain cc where cc: "get_child_context r (child_context ls) = Inr cc"
    using Cons.prems(1) get_child_context_ignores_context[of r "child_context ls" None] by auto
  have "\<forall>y. \<exists>t. derive_list_signup w y (?m r) = Inr t"
    using Cons.prems(1) by simp
  then obtain t where t: "derive_list_signup w (yesterday_utc w (record_count ls)) (?m r) = Inr t"
    by blast
  let ?b = "(get_context_state (state ls) ?spc)\<lparr>replication_key_value := Some v\<rparr>"
  have inc: "increment_stream_state s (?m r) (get_context_state (state ls) ?spc) = Inr ?b"
    using increment_in_order[OF key ord] .
  obtain ls1 where step: "process_record w s ctx ls r = (ls1, None)"
    and st1: "state ls1 = set_context_state (state ls) ?spc ?b"
    and rm1: "record_messages (trace ls1) = record_messages (trace ls) @ [?m r]"
    using process_record_written[OF sel frq lim kids cc t inc] by blast
  have bm1: "replication_key_value (get_context_state (state ls1) ?spc) = Some v"
    by (simp add: st1 get_set_context_state)
  have rest: "\<forall>r\<in>set (pre @ [bad]).
            (\<exists>cc. get_child_context r None = Inr cc)
          \<and> (\<forall>y. \<exists>t. derive_list_signup w y (?m r) = Inr t)"
    using Cons.prems(1) by simp
  obtain ls' where run: "sync_loop w s ctx ls1 (map Yield (pre @ bad # post)) =
        (ls', Some InvalidStreamSortException)"
    and rm: "record_messages (trace ls') = record_messages (trace ls1) @ map ?m (pre @ [bad])"
    using Cons.IH[OF rest keys', of ls1] asc' last' bm1 by auto
  have "sync_loop w s ctx ls (map Yield ((r # pre) @ bad # post)) =
        (ls', Some InvalidStreamSortException)"
    using step run by simp
  moreover have "record_messages (trace ls') =
      record_messages (trace ls) @ map ?m ((r # pre) @ [bad])"
    using rm rm1 by simp
  ultimately show ?case by blast
qed

text \<open>
  Claim C1, as the code has it.  Take a selected stream, and a record sequence of one
  context in which every record passes the steps before the write (child context and
  signup timestamp are derived, child syncs return, no record limit).  Let the
  replication-key values of the records \<open>pre\<close> be in order from the bookmark on, and
  let the value of the next record \<open>bad\<close> be strictly less than the bookmark value
  reached.  Then the loop ends with the ordering-violation error, and the records
  written are exactly \<open>pre\<close> followed by \<open>bad\<close>, each once: the offending record is
  written before the bookmark is compared, and no record after it is written.
\<close>

theorem out_of_order_record_written_then_error:
  assumes "selected s" and "STATE_MSG_FREQUENCY s \<noteq> 0" and "MAX_RECORDS_LIMIT s = None"
    and "\<forall>cc. children_outcome w cc = None"
    and "\<forall>r\<in>set (pre @ [bad]).
            (\<exists>cc. get_child_context r None = Inr cc)
          \<and> (\<forall>y. \<exists>t. derive_list_signup w y (merge_state_context (state_partition_context s ctx) r) = Inr t)"
    and "map (\<lambda>r. map_of (merge_state_context (state_partition_context s ctx) r) (replication_key s)) pre
           = map Some vs"
    and "ascending (replication_key_value (get_context_state (state ls) (state_partition_context s ctx))) vs"
    and "map_of (merge_state_context (state_partition_context s ctx) bad) (replication_key s) = Some new"
    and "last_value (replication_key_value (get_context_state (state ls) (state_partition_context s ctx))) vs
           = Some old"
    and "py_less new old = Inr True"
  shows "snd (sync_loop w s ctx ls (map Yield (pre @ bad # post))) = Some InvalidStreamSortException
       \<and> record_messages (trace (fst (sync_loop w s ctx ls (map Yield (pre @ bad # post))))) =
           record_messages (trace ls)
             @ map (merge_state_context (state_partition_context s ctx)) (pre @ [bad])"
  using sync_loop_sort_error[OF assms(1,2,3,4,8,10,5,6,7,9), of post] by auto

lemma demo_records_derivable:
  "\<forall>r\<in>set ([member_new] @ [member_old]).
            (\<exists>cc. get_child_context r None = Inr cc)
          \<and> (\<forall>y. \<exists>t. derive_list_signup demo_world y
                 (merge_state_context (state_partition_context demo_stream None) r) = Inr t)"
  by (simp add: get_child_context_def merge_state_context_def state_partition_context_def
      derive_list_signup_def signup_lookup_def py_parse_def demo_world_def demo_parse_def
      member_new_def member_old_def)

theorem out_of_order_record_written_then_error_witness:
  "snd (sync_loop demo_world demo_stream None start_state
          (map Yield ([member_new] @ member_old # [member_a]))) = Some InvalidStreamSortException
   \<and> record_messages (trace (fst (sync_loop demo_world demo_stream None start_state
          (map Yield ([member_new] @ member_old # [member_a]))))) = [member_new, member_old]"
proof -
  have a: "selected demo_stream" "STATE_MSG_FREQUENCY demo_stream \<noteq> 0"
    "MAX_RECORDS_LIMIT demo_stream = None"
    by (simp_all add: demo_stream_def)
  have b: "\<forall>cc. children_outcome demo_world cc = None" by (simp add: demo_world_def)
  have m: "\<And>r. merge_state_context (state_partition_context demo_stream None) r = r"
    by (simp add: merge_state_context_def state_partition_context_def)
  have rk: "replication_key demo_stream = ''List Signup''" by (simp add: demo_stream_def)
  have keys: "map (\<lambda>r. map_of (merge_state_context (state_partition_context demo_stream None) r)
                 (replication_key demo_stream)) [member_new] = map Some [VStr ''2024-01-05'']"
    by (simp add: m rk member_new_def)
  have bm: "replication_key_value (get_context_state (state start_state)
               (state_partition_context demo_stream None)) = None"
    by (simp add: get_context_state_def state_partition_context_def start_state_def empty_bookmark_def)
  have asc: "ascending (replication_key_value (get_context_state (state start_state)
               (state_partition_context demo_stream None))) [VStr ''2024-01-05'']"
    by (simp add: bm)
  have bad: "map_of (merge_state_context (state_partition_context demo_stream None) member_old)
                 (replication_key demo_stream) = Some (VStr ''2024-01-01'')"
    by (simp add: m rk member_old_def)
  have lst: "last_value (replication_key_value (get_context_state (state start_state)
               (state_partition_context demo_stream None))) [VStr ''2024-01-05'']
             = Some (VStr ''2024-01-05'')"
    by simp
  have lt: "py_less (VStr ''2024-01-01'') (VStr ''2024-01-05'') = Inr True"
    by (simp add: less_char_def)
  show ?thesis
    using out_of_order_record_written_then_error[OF a b demo_records_derivable keys asc bad lst lt,
        of "[member_a]"]
    by (simp add: m start_state_def)
qed

text \<open>
  Counterexample to claim C1 as stated: the second record carries a replication-key
  value below the first one's.  The trace shows its record message, written before the
  sort error is logged and raised.
\<close>

lemmas sync_defs = process_record_def get_child_context_def merge_state_context_def
  derive_list_signup_def signup_lookup_def profile_or_signup_date_def py_parse_def
  sync_children_def check_max_record_limit_def write_record_def increment_stream_state_def
  get_context_state_def set_context_state_def state_partition_context_def empty_bookmark_def

theorem out_of_order_record_is_written:
  "sync_loop demo_world demo_stream None start_state [Yield member_new, Yield member_old] =
    (start_state\<lparr>record_count := 1, partition_record_count := 1,
       child_context := Some [(''list_id'', VStr ''L1''), (''user_id'', VStr ''U3'')],
       state := \<lparr>stream_bookmark = \<lparr>replication_key_value = Some (VStr ''2024-01-05''),
                                      progress_markers = []\<rparr>,
                 partition_bookmarks = []\<rparr>,
       trace := [SyncChildren [(''list_id'', VStr ''L1''), (''user_id'', VStr ''U2'')],
                 RecordMessage member_new,
                 StateMessage \<lparr>stream_bookmark = \<lparr>replication_key_value = Some (VStr ''2024-01-05''),
                                                  progress_markers = []\<rparr>,
                               partition_bookmarks = []\<rparr>,
                 RecordMessage member_old,
                 SortErrorLog 2 2 None None ''list_members'']\<rparr>,
     Some InvalidStreamSortException)"
  by (simp add: sync_defs demo_stream_def demo_world_def demo_parse_def start_state_def
      member_new_def member_old_def Let_def less_char_def)

subsection \<open>A stream that is not selected\<close>







subsection \<open>Failures of the job poll\<close>

lemma sync_loop_emits:
  "sync_loop w s ctx ls (map Emit evs) = (ls\<lparr>trace := trace ls @ evs\<rparr>, None)"
  by (induction evs arbitrary: ls) simp_all

lemma sync_loop_emits_raise:
  "sync_loop w s ctx ls (map Emit evs @ [Raise e]) = (ls\<lparr>trace := trace ls @ evs\<rparr>, Some e)"
  by (induction evs arbitrary: ls) simp_all

lemma yielded_map_Emit: "yielded (map Emit evs @ rest) = yielded rest"
  by (induction evs) simp_all

lemma record_messages_JobLog: "record_messages (map JobLog jlog) = []"
  by (induction jlog) simp_all

lemma record_messages_submit_log: "record_messages (submit_log response list_name) = []"
  by (simp add: submit_log_def)

lemma get_records_poll_failed:
  assumes "map_of c ''list_name'' = Some list_name"
    and "api_post w [(''job'', VStr ''export_list_data''), (''list'', list_name)] = Inr response"
    and "post_job_id response = Some job_id"
    and "get_job_url (jobs w) job_id default_timeout = Some (jlog, Inl e)"
  shows "get_records w s (Some c) =
           Some (if e = MaxRetryError
                 then map Emit (submit_log response list_name @ map JobLog jlog @ [SkippingInfo list_name])
                 else map Emit (submit_log response list_name @ map JobLog jlog) @ [Raise e])"
  using assms by (simp add: get_records_def submit_log_def Let_def comp_def)

lemma blast_query_get_records_poll_failed:
  assumes "map_of c ''blast_id'' = Some blast_id"
    and "api_post w [(''job'', VStr ''blast_query''), (''blast_id'', blast_id)] = Inr response"
    and "post_job_id response = Some job_id"
    and "get_job_url (jobs w) job_id default_timeout = Some (jlog, Inl e)"
  shows "blast_query_get_records w s (Some c) =
           Some (if e = MaxRetryError
                 then map Emit (submit_log response blast_id @ map JobLog jlog @ [SkippingInfo blast_id])
                 else map Emit (submit_log response blast_id @ map JobLog jlog) @ [Raise e])"
  using assms by (simp add: blast_query_get_records_def submit_log_def Let_def comp_def)

lemma sync_context_poll_failed:
  assumes "map_of c ''list_name'' = Some list_name"
    and "api_post w [(''job'', VStr ''export_list_data''), (''list'', list_name)] = Inr response"
    and "post_job_id response = Some job_id"
    and "get_job_url (jobs w) job_id default_timeout = Some (jlog, Inl e)"
  shows "\<exists>ls'. sync_context w s ls c = Some (ls', if e = MaxRetryError then None else Some e)
            \<and> record_count ls' = record_count ls
            \<and> record_messages (trace ls') = record_messages (trace ls)
            \<and> (e = MaxRetryError \<longrightarrow> SkippingInfo list_name \<in> set (trace ls'))"
proof -
  have ne: "c \<noteq> []" using assms(1) by auto
  note gr = get_records_poll_failed[OF assms, of s]
  show ?thesis
  proof (cases "e = MaxRetryError")
    case True
    define evs where "evs = submit_log response list_name @ map JobLog jlog @ [SkippingInfo list_name]"
    have items: "get_records w s (Some c) = Some (map Emit evs)"
      using gr True unfolding evs_def by simp
    have rm: "record_messages evs = []"
      unfolding evs_def
      by (simp add: record_messages_append record_messages_JobLog record_messages_submit_log)
    have sk: "SkippingInfo list_name \<in> set evs" unfolding evs_def by simp
    show ?thesis using True ne rm sk
      by (simp add: sync_context_def Let_def items sync_loop_emits record_messages_append)
  next
    case False
    define evs where "evs = submit_log response list_name @ map JobLog jlog"
    have items: "get_records w s (Some c) = Some (map Emit evs @ [Raise e])"
      using gr False unfolding evs_def by simp
    have rm: "record_messages evs = []"
      unfolding evs_def
      by (simp add: record_messages_append record_messages_JobLog record_messages_submit_log)
    show ?thesis using False ne rm
      by (simp add: sync_context_def Let_def items sync_loop_emits_raise record_messages_append)
  qed
qed

text \<open>
  Claim C6, as the code has it.  Let the job of a context be submitted and let its
  polling end in the exception \<open>e\<close>.  If \<open>e\<close> is \<^verbatim>\<open>MaxRetryError\<close> (the connectivity
  failure that \<^verbatim>\<open>get_records\<close> catches), the generator logs that the list is skipped
  and yields no record, the context ends normally with no record counted or written,
  and the sync goes on with the remaining contexts.  Any other exception, the job
  timeout included, is not caught: it ends the sync of all remaining contexts.
\<close>

theorem only_max_retry_error_skips_context:
  assumes "map_of c ''list_name'' = Some list_name"
    and "api_post w [(''job'', VStr ''export_list_data''), (''list'', list_name)] = Inr response"
    and "post_job_id response = Some job_id"
    and "get_job_url (jobs w) job_id default_timeout = Some (jlog, Inl e)"
  shows "(e = MaxRetryError \<longrightarrow>
            (\<exists>items. get_records w s (Some c) = Some items \<and> yielded items = [] \<and> raised items = None)
          \<and> (\<exists>ls'. sync_context w s ls c = Some (ls', None)
                 \<and> sync_contexts w s ls (c # cs) = sync_contexts w s ls' cs
                 \<and> record_count ls' = record_count ls
                 \<and> record_messages (trace ls') = record_messages (trace ls)
                 \<and> SkippingInfo list_name \<in> set (trace ls')))
       \<and> (e \<noteq> MaxRetryError \<longrightarrow>
            (\<exists>ls'. sync_contexts w s ls (c # cs) = Some (ls', Some e)
                 \<and> record_messages (trace ls') = record_messages (trace ls)))"
proof (intro conjI impI)
  assume e: "e = MaxRetryError"
  define evs where "evs = submit_log response list_name @ map JobLog jlog @ [SkippingInfo list_name]"
  have "get_records w s (Some c) = Some (map Emit evs)"
    using get_records_poll_failed[OF assms, of s] e unfolding evs_def by simp
  moreover have "yielded (map Emit evs :: (pydict, event) gen_item list) = []"
    using yielded_map_Emit[of evs "[]"] by simp
  moreover have "raised (map Emit evs :: (pydict, event) gen_item list) = None"
    by (induction evs) simp_all
  ultimately show "\<exists>items. get_records w s (Some c) = Some items \<and> yielded items = [] \<and> raised items = None"
    by blast
next
  assume e: "e = MaxRetryError"
  obtain ls' where "sync_context w s ls c = Some (ls', None)"
    "record_count ls' = record_count ls"
    "record_messages (trace ls') = record_messages (trace ls)"
    "SkippingInfo list_name \<in> set (trace ls')"
    using sync_context_poll_failed[OF assms, of s ls] e by auto
  then show "\<exists>ls'. sync_context w s ls c = Some (ls', None)
                 \<and> sync_contexts w s ls (c # cs) = sync_contexts w s ls' cs
                 \<and> record_count ls' = record_count ls
                 \<and> record_messages (trace ls') = record_messages (trace ls)
                 \<and> SkippingInfo list_name \<in> set (trace ls')"
    by auto
next
  assume e: "e \<noteq> MaxRetryError"
  obtain ls' where "sync_context w s ls c = Some (ls', Some e)"
    "record_messages (trace ls') = record_messages (trace ls)"
    using sync_context_poll_failed[OF assms, of s ls] e by auto
  then show "\<exists>ls'. sync_contexts w s ls (c # cs) = Some (ls', Some e)
                 \<and> record_messages (trace ls') = record_messages (trace ls)"
    by auto
qed

lemma get_job_url_first_poll_raises:
  "api_get_job c jid 0 = Inl e \<Longrightarrow> get_job_url c jid timeout = Some ([], Inl e)"
  unfolding get_job_url_def by (subst poll_job.simps) simp

lemma submit_first:
  "api_post timeout_world [(''job'', VStr ''export_list_data''), (''list'', VStr ''first'')] =
     Inr \<lparr>post_error = VNone, post_job_id = Some ''jobA''\<rparr>"
  "api_post retry_error_world [(''job'', VStr ''export_list_data''), (''list'', VStr ''first'')] =
     Inr \<lparr>post_error = VNone, post_job_id = Some ''jobA''\<rparr>"
  by (simp_all add: timeout_world_def retry_error_world_def submit_by_list_def)

lemma first_list_name: "map_of first_list ''list_name'' = Some (VStr ''first'')"
  by (simp add: first_list_def)

lemma job_id_A: "post_job_id \<lparr>post_error = VNone, post_job_id = Some ''jobA''\<rparr> = Some ''jobA''"
  by simp

lemma retry_error_poll:
  "get_job_url (jobs retry_error_world) ''jobA'' default_timeout = Some ([], Inl MaxRetryError)"
  by (rule get_job_url_first_poll_raises) (simp add: retry_error_world_def)

lemma timeout_poll:
  "get_job_url (jobs timeout_world) ''jobA'' default_timeout =
     Some (polls_log stuck_responses 0 2 @
             [JobStatusInfo (status (stuck_responses 2)),
              JobTimeoutCritical ''jobA'' default_timeout (status (stuck_responses 2))],
           Inl SailthruJobTimeoutError)"
proof -
  have ok: "\<forall>j\<le>2. api_get_job (jobs timeout_world) ''jobA'' j = Inr (stuck_responses j)"
    by (simp add: timeout_world_def)
  have early: "\<forall>j<2. status (stuck_responses j) \<noteq> Some ''completed''
                 \<and> elapsed_seconds (jobs timeout_world) ''jobA'' j \<le> default_timeout"
    by (simp add: timeout_world_def stuck_responses_def default_timeout_def)
  have late: "default_timeout < elapsed_seconds (jobs timeout_world) ''jobA'' 2"
    by (simp add: timeout_world_def default_timeout_def)
  have ne: "Some [] \<noteq> Some ''completed''" by simp
  show ?thesis
    using poll_job_times_out[OF ok early late, of 0 "Some []" None "[]"] ne
    by (simp add: get_job_url_def)
qed

theorem only_max_retry_error_skips_context_witness:
  "(\<exists>items. get_records retry_error_world partitioned_stream (Some first_list) = Some items
        \<and> yielded items = [] \<and> raised items = None)
 \<and> (\<exists>ls'. sync_context retry_error_world partitioned_stream start_state first_list = Some (ls', None)
        \<and> sync_contexts retry_error_world partitioned_stream start_state [first_list, second_list]
            = sync_contexts retry_error_world partitioned_stream ls' [second_list]
        \<and> record_count ls' = record_count start_state
        \<and> record_messages (trace ls') = record_messages (trace start_state)
        \<and> SkippingInfo (VStr ''first'') \<in> set (trace ls'))
 \<and> (\<exists>ls'. sync_contexts timeout_world partitioned_stream start_state [first_list, second_list]
            = Some (ls', Some SailthruJobTimeoutError)
        \<and> record_messages (trace ls') = record_messages (trace start_state))"
  using only_max_retry_error_skips_context[OF first_list_name submit_first(2) job_id_A retry_error_poll,
          of partitioned_stream start_state "[second_list]"]
        only_max_retry_error_skips_context[OF first_list_name submit_first(1) job_id_A timeout_poll,
          of partitioned_stream start_state "[second_list]"]
  by simp

text \<open>
  Counterexample to claim C6 as stated: the job of the first of two partitions times
  out.  The timeout error leaves \<^verbatim>\<open>_sync_records\<close>; the second partition, whose job
  is complete, is never synced and no record is written.
\<close>

theorem job_timeout_aborts_sync:
  "\<exists>ls. sync_records timeout_world partitioned_stream None empty_stream_state
           = Some (ls, Some SailthruJobTimeoutError)
       \<and> record_messages (trace ls) = []"
proof -
  let ?ls0 = "\<lparr>record_count = 0, partition_record_count = 0, child_context = None,
              state = empty_stream_state, trace = []\<rparr>"
  obtain ls' where sc: "sync_context timeout_world partitioned_stream ?ls0 first_list
        = Some (ls', Some SailthruJobTimeoutError)"
    and rm: "record_messages (trace ls') = record_messages (trace ?ls0)"
    using sync_context_poll_failed[OF first_list_name submit_first(1) job_id_A timeout_poll,
        of partitioned_stream ?ls0]
    by auto
  have cl: "context_list_of partitioned_stream None = [first_list, second_list]"
    by (simp add: context_list_of_def partitioned_stream_def)
  have "sync_records timeout_world partitioned_stream None empty_stream_state
           = Some (ls', Some SailthruJobTimeoutError)"
    by (simp add: sync_records_def cl sc)
  then show ?thesis using rm by auto
qed

text \<open>
  The whole sync on the two-partition stream when the first poll of the first list
  raises \<^verbatim>\<open>MaxRetryError\<close>: the first list is skipped, the export of the second list
  is decoded, post-processed and merged with its context, and its one record is
  written.
\<close>

lemma completed_poll:
  "get_job_url (jobs retry_error_world) ''jobB'' default_timeout =
     Some ([JobStatusInfo (Some ''completed''), Sleep 1], Inr (Some ''https://export/B.csv''))"
proof -
  have ok: "\<forall>j\<le>0. api_get_job (jobs retry_error_world) ''jobB'' j = Inr ((\<lambda>j. completed_response) j)"
    by (simp add: retry_error_world_def)
  have early: "\<forall>j<0. status ((\<lambda>j. completed_response) j) \<noteq> Some ''completed''
                 \<and> elapsed_seconds (jobs retry_error_world) ''jobB'' j \<le> default_timeout"
    by simp
  have fin: "status ((\<lambda>j. completed_response) 0) = Some ''completed''"
    by (simp add: completed_response_def)
  have intime: "elapsed_seconds (jobs retry_error_world) ''jobB'' 0 \<le> default_timeout"
    by (simp add: retry_error_world_def)
  have ne: "Some [] \<noteq> Some ''completed''" by simp
  show ?thesis
    using poll_job_completes[OF ok early fin intime, of 0 "Some []" None "[]"] ne
    by (simp add: get_job_url_def polls_log_empty completed_response_def)
qed

lemma second_list_records:
  "get_records retry_error_world partitioned_stream (Some second_list) =
     Some [Emit (JobLog (JobStatusInfo (Some ''completed''))), Emit (JobLog (Sleep 1)),
           Emit (CsvLog (HttpGet (Some ''https://export/B.csv''))),
           Yield [(''Profile Id'', VStr ''U9''), (''List Signup'', VStr ''2024-01-01''),
                  (''List Name'', VStr ''second''), (''List Id'', VStr ''L2''),
                  (''custom_vars'',
                   VList [VDict [(''var_name'', VStr ''Color''), (''var_value'', VStr ''red'')],
                          VDict [(''var_name'', VStr ''Account Name''), (''var_value'', VStr ''acme'')]])]]"
proof -
  have sub: "api_post retry_error_world [(''job'', VStr ''export_list_data''), (''list'', VStr ''second'')]
      = Inr \<lparr>post_error = VNone, post_job_id = Some ''jobB''\<rparr>"
    by (simp add: retry_error_world_def submit_by_list_def)
  have files: "files retry_error_world = one_row_transport" by (simp add: retry_error_world_def)
  show ?thesis
    by (simp add: get_records_def second_list_def sub completed_poll files
        iterate_job_csv_first_get process_job_csv_body_def one_row_transport_def export_row_def
        decode_row_def dict_update_def post_process_def partitioned_stream_def demo_stream_def Let_def)
qed


lemma first_list_records:
  "get_records retry_error_world partitioned_stream (Some first_list) =
     Some [Emit (SkippingInfo (VStr ''first''))]"
  using get_records_poll_failed[OF first_list_name submit_first(2) job_id_A retry_error_poll,
      of partitioned_stream]
  by (simp add: submit_log_def)

lemma partitioned_fields:
  "selected partitioned_stream" "selectively_sync_children partitioned_stream"
  "signup_dt partitioned_stream = 3" "MAX_RECORDS_LIMIT partitioned_stream = None"
  "STATE_MSG_FREQUENCY partitioned_stream = 10000"
  "replication_key partitioned_stream = ''List Signup''"
  "state_partitioning_keys partitioned_stream = None"
  "name partitioned_stream = ''list_members''"
  "partitions partitioned_stream = Some [first_list, second_list]"
  by (simp_all add: partitioned_stream_def demo_stream_def)

lemma retry_world_fields:
  "pendulum_parse retry_error_world = demo_parse"
  "yesterday_utc retry_error_world = (\<lambda>n. 3)"
  "children_outcome retry_error_world = (\<lambda>cc. None)"
  by (simp_all add: retry_error_world_def)

lemma sync_records_skips_first_list:
  "\<exists>ls. sync_records retry_error_world partitioned_stream None empty_stream_state = Some (ls, None)
       \<and> record_count ls = 1
       \<and> record_messages (trace ls) =
           [[(''Profile Id'', VStr ''U9''), (''List Signup'', VStr ''2024-01-01''),
             (''List Name'', VStr ''second''), (''List Id'', VStr ''L2''),
             (''custom_vars'',
              VList [VDict [(''var_name'', VStr ''Color''), (''var_value'', VStr ''red'')],
                     VDict [(''var_name'', VStr ''Account Name''), (''var_value'', VStr ''acme'')]]),
             (''list_id'', VStr ''L2''), (''list_name'', VStr ''second'')]]"
proof -
  have ne: "first_list \<noteq> []" "second_list \<noteq> []" "[first_list, second_list] \<noteq> []"
    by (simp_all add: first_list_def second_list_def)
  show ?thesis
    apply (simp add: sync_records_def context_list_of_def sync_context_def first_list_records
        second_list_records ne partitioned_fields state_partition_context_def Let_def)
    apply (simp add: sync_defs partitioned_fields retry_world_fields demo_parse_def
        finalize_state_progress_markers_def finalize_stream_state_def
        empty_stream_state_def first_list_def second_list_def Let_def)
    done
qed

end
